theory Spec2Isabelle
  imports Complex_Main "HOL-Library.AList"
begin

chapter \<open>The program\<close>

section \<open>Reader modes (readermodality.ts)\<close>

text \<open>
  The TypeScript enum \<open>ReaderModality\<close> with its numeric values
  \<open>NORMAL = 0, EDIT = 1, TABLE = 2, PAUSED = 3\<close>.
\<close>

datatype ReaderModality = NORMAL | EDIT | TABLE | PAUSED

fun modeIndex :: "ReaderModality \<Rightarrow> nat" where
  "modeIndex NORMAL = 0"
| "modeIndex EDIT = 1"
| "modeIndex TABLE = 2"
| "modeIndex PAUSED = 3"

fun modeName :: "ReaderModality \<Rightarrow> string" where
  "modeName NORMAL = ''NORMAL''"
| "modeName EDIT = ''EDIT''"
| "modeName TABLE = ''TABLE''"
| "modeName PAUSED = ''PAUSED''"

section \<open>The mode stack (modalitystack.ts)\<close>

text \<open>
  The private array \<open>stack\<close>; the top of the stack is the last entry of the
  array, as \<open>push\<close>, \<open>pop\<close> and \<open>stack[stack.length - 1]\<close> have it.
  A read that JavaScript answers with \<open>undefined\<close> is \<open>None\<close>.
\<close>

type_synonym ModalityStack = "ReaderModality list"

definition ModalityStack_new :: ModalityStack where
  "ModalityStack_new = [NORMAL, PAUSED]"

text \<open>\<open>Array.prototype.pop\<close>: removes and returns the last entry, \<open>undefined\<close> on an empty array.\<close>

definition array_pop :: "'a list \<Rightarrow> 'a option \<times> 'a list" where
  "array_pop xs = (if xs = [] then (None, []) else (Some (last xs), butlast xs))"

definition popMode :: "ModalityStack \<Rightarrow> ReaderModality option \<times> ModalityStack" where
  "popMode stack =
     (if length stack = 1 then (Some (stack ! 0), stack) else array_pop stack)"

definition pushMode :: "ReaderModality \<Rightarrow> ModalityStack \<Rightarrow> ModalityStack" where
  "pushMode m stack = stack @ [m]"

definition mode :: "ModalityStack \<Rightarrow> ReaderModality option" where
  "mode stack = (if stack = [] then None else Some (stack ! (length stack - 1)))"

section \<open>The speech proxy (speechsynth.ts)\<close>

subsection \<open>JavaScript numbers\<close>

text \<open>
  The field \<open>speechRate\<close> and the parameter \<open>factor\<close> are JavaScript numbers.
  The model keeps the values on which \<open>*\<close>, \<open>>\<close> and \<open><\<close> behave specially
  (\<open>NaN\<close> and the two infinities) and treats a finite value as the real number it
  denotes: the rounding of a product to the nearest double, its overflow to an infinity
  and its underflow to zero are not modelled. Rounding is monotone and 0.25 and 4 are
  doubles, so the comparisons with the two bounds come out the same.
\<close>

datatype number = NaN | NegInf | Fin real | PosInf

text \<open>The operator \<open>*\<close>.\<close>

fun num_times :: "number \<Rightarrow> number \<Rightarrow> number" where
  "num_times NaN y = NaN"
| "num_times x NaN = NaN"
| "num_times (Fin a) (Fin b) = Fin (a * b)"
| "num_times (Fin a) PosInf = (if a = 0 then NaN else if 0 < a then PosInf else NegInf)"
| "num_times (Fin a) NegInf = (if a = 0 then NaN else if 0 < a then NegInf else PosInf)"
| "num_times PosInf (Fin b) = (if b = 0 then NaN else if 0 < b then PosInf else NegInf)"
| "num_times NegInf (Fin b) = (if b = 0 then NaN else if 0 < b then NegInf else PosInf)"
| "num_times PosInf PosInf = PosInf"
| "num_times PosInf NegInf = NegInf"
| "num_times NegInf PosInf = NegInf"
| "num_times NegInf NegInf = PosInf"

text \<open>The operator \<open><\<close>: every comparison with \<open>NaN\<close> is false.\<close>

fun num_less :: "number \<Rightarrow> number \<Rightarrow> bool" where
  "num_less NaN y = False"
| "num_less x NaN = False"
| "num_less (Fin a) (Fin b) = (a < b)"
| "num_less (Fin a) PosInf = True"
| "num_less (Fin a) NegInf = False"
| "num_less PosInf y = False"
| "num_less NegInf NegInf = False"
| "num_less NegInf y = True"

text \<open>The operator \<open>>\<close>.\<close>

definition num_greater :: "number \<Rightarrow> number \<Rightarrow> bool" where
  "num_greater x y = num_less y x"

subsection \<open>The voice engine\<close>

text \<open>
  \<open>window.speechSynthesis\<close> is the platform's engine, outside the repository. The
  proxy only issues calls to it, so the field \<open>voiceSynth\<close> is modelled as the list of
  calls issued so far, oldest first. An utterance carries its text, its rate and the two
  callbacks; \<open>speak\<close> assigns \<open>onend\<close> right after submitting the utterance object, so
  the engine sees both callbacks before any event is delivered. The checks the platform
  makes on the fields of an utterance are not modelled.
\<close>

datatype 'f utterance =
  Utterance (utext: string) (rate: number) (onstart: 'f) (onend: 'f)

datatype 'f engine_call =
  EngineCancel | EnginePause | EngineResume | EngineSpeak "'f utterance"

text \<open>
  What the engine holds after a sequence of calls, following the Web Speech API:
  \<open>speak\<close> appends the utterance to the engine's queue, \<open>cancel\<close> removes every
  utterance from the queue (the one being spoken included), \<open>pause\<close> and \<open>resume\<close>
  leave the queue as it is.
\<close>

fun engine_step :: "'f utterance list \<Rightarrow> 'f engine_call \<Rightarrow> 'f utterance list" where
  "engine_step q EngineCancel = []"
| "engine_step q EnginePause = q"
| "engine_step q EngineResume = q"
| "engine_step q (EngineSpeak u) = q @ [u]"

definition engineQueue :: "'f engine_call list \<Rightarrow> 'f utterance list" where
  "engineQueue calls = foldl engine_step [] calls"

subsection \<open>The class SpeechSynth\<close>

record 'f SpeechSynth =
  voiceSynth :: "'f engine_call list"
  speechRate :: number
  isPause :: bool

text \<open>The constructor cancels whatever a previous page left speaking.\<close>

definition SpeechSynth_new :: "'f SpeechSynth" where
  "SpeechSynth_new = \<lparr>voiceSynth = [EngineCancel], speechRate = Fin 1, isPause = False\<rparr>"

text \<open>The singleton accessor; the static field \<open>_instance\<close> is passed in and returned.\<close>

definition getSynth :: "'f SpeechSynth option \<Rightarrow> 'f SpeechSynth \<times> 'f SpeechSynth option" where
  "getSynth instance =
     (case instance of
        None \<Rightarrow> (SpeechSynth_new, Some SpeechSynth_new)
      | Some s \<Rightarrow> (s, Some s))"

definition changeVoiceRate :: "number \<Rightarrow> 'f SpeechSynth \<Rightarrow> 'f SpeechSynth" where
  "changeVoiceRate factor s =
     (let s1 = s\<lparr>speechRate := num_times (speechRate s) factor\<rparr>
      in if num_greater (speechRate s1) (Fin 4) then s1\<lparr>speechRate := Fin 4\<rparr>
         else if num_less (speechRate s1) (Fin (1/4)) then s1\<lparr>speechRate := Fin (1/4)\<rparr>
         else s1)"

definition increaseVoiceRate :: "'f SpeechSynth \<Rightarrow> 'f SpeechSynth" where
  "increaseVoiceRate s = changeVoiceRate (Fin (11/10)) s"

definition decreaseVoiceRate :: "'f SpeechSynth \<Rightarrow> 'f SpeechSynth" where
  "decreaseVoiceRate s = changeVoiceRate (Fin (9/10)) s"

definition stop :: "'f SpeechSynth \<Rightarrow> 'f SpeechSynth" where
  "stop s = s\<lparr>voiceSynth := voiceSynth s @ [EngineCancel]\<rparr>"

definition pause :: "'f SpeechSynth \<Rightarrow> 'f SpeechSynth" where
  "pause s =
     (if \<not> isPause s
      then s\<lparr>voiceSynth := voiceSynth s @ [EnginePause], isPause := True\<rparr>
      else s)"

definition resume :: "'f SpeechSynth \<Rightarrow> 'f SpeechSynth" where
  "resume s =
     (if isPause s
      then s\<lparr>voiceSynth := voiceSynth s @ [EngineResume], isPause := False\<rparr>
      else s)"

definition stopNGo :: "'f SpeechSynth \<Rightarrow> 'f SpeechSynth" where
  "stopNGo s =
     (let s1 = (if isPause s then resume s else pause s)
      in s1\<lparr>isPause := \<not> isPause s1\<rparr>)"

definition speak :: "string \<Rightarrow> 'f \<Rightarrow> 'f \<Rightarrow> 'f SpeechSynth \<Rightarrow> 'f SpeechSynth" where
  "speak txt onStart onEnd s =
     (let s1 = stop s;
          utterance = Utterance txt (speechRate s1) onStart onEnd
      in s1\<lparr>voiceSynth := voiceSynth s1 @ [EngineSpeak utterance]\<rparr>)"

section \<open>The keybind registry (keybinds.ts)\<close>

text \<open>
  The functions that can throw return \<open>error + result\<close> with the error on the left.
  Every error of the program is a JavaScript \<open>TypeError\<close>; the model tells two kinds
  apart by what raises them: \<open>TypeError\<close> is a property access on \<open>undefined\<close> or
  \<open>null\<close> (or the conversion of \<open>undefined\<close> to an object), and
  \<open>TypeError_not_a_function\<close> is the call of a value that is not a function.
\<close>

datatype error = TypeError | TypeError_not_a_function

record 'cb binding =
  description :: string
  callback :: 'cb

text \<open>
  The type \<open>Binds\<close>. A map of keybinds is created as the object literal \<open>{}\<close>, so
  it has own properties, kept here in the order of their creation, and a prototype.
  The prototype is \<open>Object.prototype\<close> until a registration under the key
  \<open>__proto__\<close> replaces it by the binding object assigned there; \<open>protoBinding\<close>
  holds that object.
\<close>

record 'cb Binds =
  ownProps :: "(string \<times> 'cb binding) list"
  protoBinding :: "'cb binding option"

definition emptyObject :: "'cb Binds" where
  "emptyObject = \<lparr>ownProps = [], protoBinding = None\<rparr>"

text \<open>The function-valued members of \<open>Object.prototype\<close>; \<open>__proto__\<close> is its accessor.\<close>

definition objectPrototypeFunctions :: "string list" where
  "objectPrototypeFunctions =
     [''constructor'', ''__defineGetter__'', ''__defineSetter__'', ''hasOwnProperty'',
      ''__lookupGetter__'', ''__lookupSetter__'', ''isPrototypeOf'',
      ''propertyIsEnumerable'', ''toString'', ''valueOf'', ''toLocaleString'']"

text \<open>
  What a property read \<open>binds[key]\<close> can give: nothing, a binding object, the
  description or the callback of a binding object that is the prototype, a built-in
  function of \<open>Object.prototype\<close>, or \<open>Object.prototype\<close> itself.
\<close>

datatype 'cb propertyValue =
  Undefined
| BindingObject "'cb binding"
| StringValue string
| CallbackFunction 'cb
| NativeFunction string
| ObjectPrototype

text \<open>
  The read \<open>binds[key]\<close>: an own property first, then the prototype chain. The
  accessor \<open>__proto__\<close> gives the prototype of the object.
\<close>

definition getProperty :: "'cb Binds \<Rightarrow> string \<Rightarrow> 'cb propertyValue" where
  "getProperty binds key =
     (case map_of (ownProps binds) key of
        Some b \<Rightarrow> BindingObject b
      | None \<Rightarrow>
          (case protoBinding binds of
             Some b \<Rightarrow>
               if key = ''description'' then StringValue (description b)
               else if key = ''callback'' then CallbackFunction (callback b)
               else if key = ''__proto__'' then BindingObject b
               else if key \<in> set objectPrototypeFunctions then NativeFunction key
               else Undefined
           | None \<Rightarrow>
               if key = ''__proto__'' then ObjectPrototype
               else if key \<in> set objectPrototypeFunctions then NativeFunction key
               else Undefined))"

text \<open>
  The assignment \<open>binds[key] = value\<close>: under \<open>__proto__\<close> it sets the prototype;
  under any other key it replaces the own property in place or creates it last.
\<close>

definition setProperty :: "string \<Rightarrow> 'cb binding \<Rightarrow> 'cb Binds \<Rightarrow> 'cb Binds" where
  "setProperty key b binds =
     (if key = ''__proto__'' then binds\<lparr>protoBinding := Some b\<rparr>
      else binds\<lparr>ownProps := AList.update key b (ownProps binds)\<rparr>)"

text \<open>The truth value of what a property read gives: only \<open>undefined\<close> and the empty string are false.\<close>

definition isTruthy :: "'cb propertyValue \<Rightarrow> bool" where
  "isTruthy v = (case v of Undefined \<Rightarrow> False | StringValue s \<Rightarrow> s \<noteq> [] | _ \<Rightarrow> True)"

text \<open>
  The field \<open>keybinds\<close> is an array of \<open>Binds\<close> indexed by the mode's number. An
  index that was never assigned reads as \<open>undefined\<close>, here \<open>None\<close>.
\<close>

type_synonym 'cb Keybinds = "nat \<Rightarrow> 'cb Binds option"

text \<open>
  \<open>Object.keys(ReaderModality)\<close> on the compiled enum object (readermodality.js): the
  reverse-mapping keys \<open>"0"\<close> to \<open>"3"\<close> come first, then the names.
\<close>

definition ReaderModality_keys :: "string list" where
  "ReaderModality_keys =
     [''0'', ''1'', ''2'', ''3'', ''NORMAL'', ''EDIT'', ''TABLE'', ''PAUSED'']"

text \<open>
  \<open>Number(key)\<close> on such a key: a string of decimal digits is its value, any other
  key is \<open>NaN\<close>, here \<open>None\<close>.
\<close>

definition digitValue :: "char \<Rightarrow> nat option" where
  "digitValue c = map_of (zip ''0123456789'' [0, 1, 2, 3, 4, 5, 6, 7, 8, 9]) c"

definition Number_of_key :: "string \<Rightarrow> nat option" where
  "Number_of_key key =
     foldl (\<lambda>acc c. case (acc, digitValue c) of
                       (Some a, Some d) \<Rightarrow> Some (10 * a + d)
                     | _ \<Rightarrow> None)
       (Some 0) key"

definition Keybinds_new :: "'cb Keybinds" where
  "Keybinds_new =
     foldl (\<lambda>keybinds key.
              case Number_of_key key of
                Some asIdx \<Rightarrow> keybinds(asIdx \<mapsto> emptyObject)
              | None \<Rightarrow> keybinds)
       (\<lambda>i. None) ReaderModality_keys"

definition registerKeybind ::
  "'cb Keybinds \<Rightarrow> ReaderModality \<Rightarrow> string \<Rightarrow> string \<Rightarrow> 'cb \<Rightarrow> error + 'cb Keybinds" where
  "registerKeybind keybinds forMode keyName descr cb =
     (case keybinds (modeIndex forMode) of
        None \<Rightarrow> Inl TypeError
      | Some binds \<Rightarrow>
          Inr (keybinds(modeIndex forMode \<mapsto>
                 setProperty keyName \<lparr>description = descr, callback = cb\<rparr> binds)))"

text \<open>
  \<open>triggerEvent\<close> returns the callback it invokes, after \<open>event.preventDefault()\<close>, or
  \<open>None\<close> when the read \<open>keybinds[mode][event.key]\<close> is false and nothing happens.
  When the read gives a value that is true and is not a binding object (a member
  inherited through the prototype chain), \<open>preventDefault\<close> is called, the property
  \<open>callback\<close> of that value is \<open>undefined\<close>, and calling it throws.
\<close>

definition triggerEvent ::
  "'cb Keybinds \<Rightarrow> ReaderModality \<Rightarrow> string \<Rightarrow> error + 'cb option" where
  "triggerEvent keybinds md eventKey =
     (case keybinds (modeIndex md) of
        None \<Rightarrow> Inl TypeError
      | Some binds \<Rightarrow>
          if isTruthy (getProperty binds eventKey)
          then (case getProperty binds eventKey of
                  BindingObject b \<Rightarrow> Inr (Some (callback b))
                | _ \<Rightarrow> Inl TypeError_not_a_function)
          else Inr None)"

text \<open>
  \<open>enunciateKey\<close> reads the key in an object literal and falls back to the key itself.
  The literal inherits from \<open>Object.prototype\<close> too: for the name of a built-in
  function the read gives that function, and for \<open>__proto__\<close> the prototype object.
  The model returns the text that such a value contributes to the concatenation in
  \<open>getHelpString\<close>, the only caller: the source text of a built-in function as V8
  prints it, and \<open>[object Object]\<close>.
\<close>

definition nativeFunctionText :: "string \<Rightarrow> string" where
  "nativeFunctionText name =
     ''function '' @ (if name = ''constructor'' then ''Object'' else name)
       @ ''() { [native code] }''"

definition enunciateKey :: "string \<Rightarrow> string" where
  "enunciateKey keyName =
     (case map_of
        [(''a'', ''A.''),
         (''ArrowRight'', ''the right arrow''),
         (''ArrowLeft'', ''the left arrow''),
         (''ArrowUp'', ''the up arrow''),
         (''ArrowDown'', ''the down arrow''),
         ('' '', ''space''),
         (''F1'', ''F 1'')] keyName of
        Some s \<Rightarrow> (if s = [] then keyName else s)
      | None \<Rightarrow>
          if keyName = ''__proto__'' then ''[object Object]''
          else if keyName \<in> set objectPrototypeFunctions then nativeFunctionText keyName
          else keyName)"

text \<open>
  \<open>Object.entries\<close>: the own properties, those whose key is an array index (a
  decimal numeral without a leading zero, below \<open>2^32 - 1\<close>) first in ascending order
  of the index, then the others in the order of their creation.
\<close>

definition isArrayIndex :: "string \<Rightarrow> bool" where
  "isArrayIndex key =
     (key \<noteq> [] \<and> (key = ''0'' \<or> hd key \<noteq> CHR ''0'')
      \<and> (case Number_of_key key of Some n \<Rightarrow> n < 4294967295 | None \<Rightarrow> False))"

definition indexValue :: "string \<Rightarrow> nat" where
  "indexValue key = (case Number_of_key key of Some n \<Rightarrow> n | None \<Rightarrow> 0)"

definition Object_entries :: "'cb Binds \<Rightarrow> (string \<times> 'cb binding) list" where
  "Object_entries binds =
     sort_key (\<lambda>entry. indexValue (fst entry))
       (filter (\<lambda>entry. isArrayIndex (fst entry)) (ownProps binds))
     @ filter (\<lambda>entry. \<not> isArrayIndex (fst entry)) (ownProps binds)"

definition getHelpString :: "'cb Keybinds \<Rightarrow> ReaderModality \<Rightarrow> error + string" where
  "getHelpString keybinds md =
     (case keybinds (modeIndex md) of
        None \<Rightarrow> Inl TypeError
      | Some binds \<Rightarrow>
          Inr (foldl (\<lambda>helpString (keyName, info).
                        helpString @ '' Press '' @ enunciateKey keyName
                          @ '' to '' @ description info @ ''. '')
                 [] (Object_entries binds)))"

definition getAllKeybinds :: "'cb Keybinds \<Rightarrow> ReaderModality \<Rightarrow> 'cb Binds option" where
  "getAllKeybinds keybinds md = keybinds (modeIndex md)"

section \<open>The page\<close>

text \<open>
  The reader works on the browser's document. An element is a node of a tree; it is
  referred to by its position, the list of child indices that leads to it from the root
  element. The attributes the reader only reads are stored in the node: \<open>tagName\<close>
  (upper case for HTML elements), \<open>id\<close>, the platform's renderings \<open>innerText\<close> and
  \<open>innerHTML\<close>, and the \<open>alt\<close> attribute, absent or present with a value.
\<close>

record element =
  tagName :: string
  elem_id :: string
  innerText_attr :: string
  innerHTML :: string
  altAttribute :: "string option"

datatype node = Node (props: element) (kids: "node list")

type_synonym eref = "nat list"

text \<open>All elements of a subtree with their positions, in document order (pre-order).\<close>

fun allNodes :: "node \<Rightarrow> (eref \<times> node) list"
  and allNodesKids :: "nat \<Rightarrow> node list \<Rightarrow> (eref \<times> node) list" where
  "allNodes (Node e ks) = ([], Node e ks) # allNodesKids 0 ks"
| "allNodesKids i [] = []"
| "allNodesKids i (k # ks) =
     map (\<lambda>(p, n). (i # p, n)) (allNodes k) @ allNodesKids (Suc i) ks"

fun nodeAt :: "node \<Rightarrow> eref \<Rightarrow> node option" where
  "nodeAt n [] = Some n"
| "nodeAt n (i # p) = (if i < length (kids n) then nodeAt (kids n ! i) p else None)"

text \<open>\<open>parentElement\<close>: \<open>null\<close> for the root element.\<close>

definition parentElement :: "eref \<Rightarrow> eref option" where
  "parentElement p = (if p = [] then None else Some (butlast p))"

text \<open>The descendants of the element at \<open>p\<close>, in document order, the element itself excluded.\<close>

definition descendantsOf :: "node \<Rightarrow> eref \<Rightarrow> (eref \<times> node) list" where
  "descendantsOf doc p =
     (case nodeAt doc p of
        None \<Rightarrow> []
      | Some n \<Rightarrow> map (\<lambda>(q, m). (p @ q, m)) (tl (allNodes n)))"

text \<open>Lower case of ASCII letters, for \<open>toLocaleLowerCase\<close> on tag names.\<close>

definition lowerChar :: "char \<Rightarrow> char" where
  "lowerChar c =
     (case map_of (zip ''ABCDEFGHIJKLMNOPQRSTUVWXYZ'' ''abcdefghijklmnopqrstuvwxyz'') c of
        Some d \<Rightarrow> d
      | None \<Rightarrow> c)"

definition toLocaleLowerCase :: "string \<Rightarrow> string" where
  "toLocaleLowerCase s = map lowerChar s"

text \<open>
  \<open>document.getElementsByTagName("*")\<close>, every element of the document, and
  \<open>element.getElementsByTagName(name)\<close>, the descendants with that tag; an HTML
  document compares the tag names without regard to case.
\<close>

definition getAllElements :: "node \<Rightarrow> (eref \<times> node) list" where
  "getAllElements doc = allNodes doc"

definition getElementsByTagName :: "node \<Rightarrow> eref \<Rightarrow> string \<Rightarrow> (eref \<times> node) list" where
  "getElementsByTagName doc p name =
     filter (\<lambda>(q, m). toLocaleLowerCase (tagName (props m)) = toLocaleLowerCase name)
       (descendantsOf doc p)"

text \<open>\<open>element.querySelectorAll("th,td")\<close>.\<close>

definition querySelectorAll_th_td :: "node \<Rightarrow> eref \<Rightarrow> (eref \<times> node) list" where
  "querySelectorAll_th_td doc p =
     filter (\<lambda>(q, m). toLocaleLowerCase (tagName (props m)) = ''th''
                      \<or> toLocaleLowerCase (tagName (props m)) = ''td'')
       (descendantsOf doc p)"

text \<open>\<open>document.getElementById\<close>: the first element in document order with that id.\<close>

definition getElementById :: "node \<Rightarrow> string \<Rightarrow> (eref \<times> node) option" where
  "getElementById doc i = find (\<lambda>(q, m). elem_id (props m) = i) (allNodes doc)"

text \<open>\<open>Array.prototype.indexOf\<close> on a list of elements: \<open>-1\<close> when the element is absent.\<close>

fun indexOf :: "(eref \<times> node) list \<Rightarrow> eref \<Rightarrow> int" where
  "indexOf [] p = -1"
| "indexOf (x # xs) p =
     (if fst x = p then 0 else (let i = indexOf xs p in if i < 0 then -1 else i + 1))"

text \<open>An array read at an integer index: \<open>undefined\<close> outside the array.\<close>

definition at_index :: "'a list \<Rightarrow> int \<Rightarrow> 'a option" where
  "at_index xs i = (if 0 \<le> i \<and> i < int (length xs) then Some (xs ! nat i) else None)"

text \<open>The class list of an element (a \<open>DOMTokenList\<close>).\<close>

definition classList_contains :: "string list \<Rightarrow> string \<Rightarrow> bool" where
  "classList_contains cls c = (c \<in> set cls)"

definition classList_add :: "string \<Rightarrow> string list \<Rightarrow> string list" where
  "classList_add c cls = (if c \<in> set cls then cls else cls @ [c])"

definition classList_remove :: "string \<Rightarrow> string list \<Rightarrow> string list" where
  "classList_remove c cls = removeAll c cls"

text \<open>\<open>String.prototype.startsWith\<close>.\<close>

definition startsWith :: "string \<Rightarrow> string \<Rightarrow> bool" where
  "startsWith s pre = (take (length pre) s = pre)"

section \<open>The screen reader (the main script)\<close>

text \<open>
  The script's globals \<open>keybinds\<close>, \<open>synth\<close> and \<open>modeStack\<close>, together with the
  document they act on. The class lists, the one attribute the script changes, are kept
  in a store of their own, keyed by the element's position; the calls of \<open>focus()\<close> and
  \<open>blur()\<close> are recorded in the order they are made. Every \<open>synth.speak\<close> of the
  script leaves the two callbacks at their default, the function that does nothing.
\<close>

datatype dom_call = Blur eref | Focus eref

record 'cb screenreader =
  document :: node
  classLists :: "eref \<Rightarrow> string list"
  domCalls :: "dom_call list"
  keybinds :: "'cb Keybinds"
  synth :: "unit SpeechSynth"
  modeStack :: ModalityStack

text \<open>A handler returns, or throws after the changes it made up to the throw.\<close>

datatype 'a outcome = Returned 'a | Threw error 'a

definition current_sr_elt :: string where
  "current_sr_elt = ''__current_sr_elt''"

definition isCurrent :: "(eref \<Rightarrow> string list) \<Rightarrow> eref \<times> node \<Rightarrow> bool" where
  "isCurrent cls x = classList_contains (cls (fst x)) current_sr_elt"

text \<open>
  The loop \<open>for (; prevIdx < all.length; prevIdx++) if (...contains(...)) break;\<close>
  that opens every handler: the index of the first marked element, \<open>all.length\<close> when
  no element is marked.
\<close>

fun findCurrent :: "(eref \<Rightarrow> string list) \<Rightarrow> (eref \<times> node) list \<Rightarrow> nat" where
  "findCurrent cls [] = 0"
| "findCurrent cls (x # xs) = (if isCurrent cls x then 0 else Suc (findCurrent cls xs))"

definition addCurrent :: "eref \<Rightarrow> 'cb screenreader \<Rightarrow> 'cb screenreader" where
  "addCurrent p st =
     st\<lparr>classLists := (classLists st)(p := classList_add current_sr_elt (classLists st p))\<rparr>"

definition removeCurrent :: "eref \<Rightarrow> 'cb screenreader \<Rightarrow> 'cb screenreader" where
  "removeCurrent p st =
     st\<lparr>classLists := (classLists st)(p := classList_remove current_sr_elt (classLists st p))\<rparr>"

definition focus :: "eref \<Rightarrow> 'cb screenreader \<Rightarrow> 'cb screenreader" where
  "focus p st = st\<lparr>domCalls := domCalls st @ [Focus p]\<rparr>"

definition blur :: "eref \<Rightarrow> 'cb screenreader \<Rightarrow> 'cb screenreader" where
  "blur p st = st\<lparr>domCalls := domCalls st @ [Blur p]\<rparr>"

definition synth_speak :: "string \<Rightarrow> 'cb screenreader \<Rightarrow> 'cb screenreader" where
  "synth_speak txt st = st\<lparr>synth := speak txt () () (synth st)\<rparr>"

text \<open>The function \<open>innerText(elt)\<close>: every \<open>\r\n\<close>, \<open>\n\<close> and \<open>\r\<close> becomes a space.\<close>

fun replaceNewlines :: "string \<Rightarrow> string" where
  "replaceNewlines [] = []"
| "replaceNewlines [c] = (if c = CHR 0x0D \<or> c = CHR 0x0A then '' '' else [c])"
| "replaceNewlines (c # d # cs) =
     (if c = CHR 0x0D \<and> d = CHR 0x0A then CHR '' '' # replaceNewlines cs
      else if c = CHR 0x0D \<or> c = CHR 0x0A then CHR '' '' # replaceNewlines (d # cs)
      else c # replaceNewlines (d # cs))"

definition innerText :: "node \<Rightarrow> string" where
  "innerText elt = replaceNewlines (innerText_attr (props elt))"

text \<open>\<open>Array.prototype.join\<close>.\<close>

fun join :: "string \<Rightarrow> string list \<Rightarrow> string" where
  "join sep [] = []"
| "join sep [x] = x"
| "join sep (x # y # ys) = x @ sep @ join sep (y # ys)"

text \<open>The string of a boolean in a concatenation, and the truth value of a string.\<close>

definition booleanToString :: "bool \<Rightarrow> string" where
  "booleanToString b = (if b then ''true'' else ''false'')"

definition truthy :: "string \<Rightarrow> bool" where
  "truthy s = (s \<noteq> [])"

text \<open>
  \<open>elementToString\<close>; \<open>None\<close> is \<open>undefined\<close>. In the \<open>img\<close> case the operator \<open>+\<close>
  binds tighter than \<open>? :\<close>, so the condition of the conditional is the string
  \<open>"Here is an image " + img.hasAttribute("alt")\<close>. The property \<open>img.alt\<close> is the
  empty string when the attribute is absent. The two template literals run over a line
  break followed by three tabs.
\<close>

definition img_alt :: "element \<Rightarrow> string" where
  "img_alt e = (case altAttribute e of Some a \<Rightarrow> a | None \<Rightarrow> [])"

definition hasAttribute_alt :: "element \<Rightarrow> bool" where
  "hasAttribute_alt e = (altAttribute e \<noteq> None)"

definition elementToString :: "node \<Rightarrow> string option" where
  "elementToString elt =
     (let tag = toLocaleLowerCase (tagName (props elt)) in
      if tag = ''title'' then Some (''Title: '' @ innerText elt)
      else if tag = ''h1'' then Some (''Header 1: '' @ innerText elt)
      else if tag = ''h2'' then Some (''Header 2: '' @ innerText elt)
      else if tag = ''h3'' then Some (''Header 3: '' @ innerText elt)
      else if tag = ''h4'' then Some (''Header 4: '' @ innerText elt)
      else if tag = ''h5'' then Some (''Header 5: '' @ innerText elt)
      else if tag = ''h6'' then Some (''Header 6: '' @ innerText elt)
      else if tag = ''p'' then Some (''Paragraph: '' @ innerText elt)
      else if tag = ''img'' then
        Some (if truthy (''Here is an image '' @ booleanToString (hasAttribute_alt (props elt)))
              then ''with description '' @ img_alt (props elt)
              else ''without any description'')
      else if tag = ''a'' then
        Some (''This is a link to '' @ innerText_attr (props elt) @ ''. Press enter to click''
              @ [CHR 0x0A, CHR 0x09, CHR 0x09, CHR 0x09] @ ''this link.'')
      else if tag = ''button'' then
        Some (''This is a button with text '' @ innerText elt @ ''. Press''
              @ [CHR 0x0A, CHR 0x09, CHR 0x09, CHR 0x09] @ ''enter to press this button.'')
      else if tag = ''table'' then
        (let captions = filter (\<lambda>(q, m). toLocaleLowerCase (tagName (props m)) = ''caption'')
                          (tl (allNodes elt));
             txt = ''This is a table '';
             txt1 = (if length captions > 0
                     then txt @ ''with caption ''
                            @ join '' '' (map (\<lambda>(q, m). innerHTML (props m)) captions)
                     else txt)
         in Some (txt1 @ ''. Press T to explore this table.''))
      else None)"

subsection \<open>Facts about the document order and the focus mark\<close>

lemma map_fst_shift: "map fst (map (\<lambda>(p, n). (i # p, n)) xs) = map ((#) i) (map fst xs)"
  by (induction xs) auto

lemma allNodes_refs:
  "distinct (map fst (allNodes n))"
  "distinct (map fst (allNodesKids i ks)) \<and>
     (\<forall>p \<in> set (map fst (allNodesKids i ks)). p \<noteq> [] \<and> i \<le> hd p)"
proof (induction n and i ks rule: allNodes_allNodesKids.induct)
  case (1 e ks)
  then show ?case by auto
next
  case (2 i)
  then show ?case by simp
next
  case (3 i k ks)
  have dm: "distinct (map ((#) i) ys)" if "distinct ys" for ys :: "eref list"
    using that by (simp add: distinct_map inj_on_def)
  have d1: "distinct (map ((#) i) (map fst (allNodes k)))"
    using 3(1) by (rule dm)
  have disj: "set (map ((#) i) (map fst (allNodes k))) \<inter> set (map fst (allNodesKids (Suc i) ks)) = {}"
    using 3(2) by fastforce
  show ?case
    using d1 disj 3(2) by (auto simp: map_fst_shift simp del: map_map)
qed

lemma findCurrent_le: "findCurrent cls xs \<le> length xs"
  by (induction xs) auto

lemma findCurrent_before: "k < findCurrent cls xs \<Longrightarrow> \<not> isCurrent cls (xs ! k)"
  by (induction xs arbitrary: k) (auto simp: nth_Cons split: if_splits nat.splits)

lemma findCurrent_at: "findCurrent cls xs < length xs \<Longrightarrow> isCurrent cls (xs ! findCurrent cls xs)"
  by (induction xs) auto

lemma findCurrent_eq:
  "j < length xs \<Longrightarrow> isCurrent cls (xs ! j) \<Longrightarrow> (\<forall>k<j. \<not> isCurrent cls (xs ! k)) \<Longrightarrow>
   findCurrent cls xs = j"
proof (induction xs arbitrary: j)
  case Nil
  then show ?case by simp
next
  case (Cons x xs)
  show ?case
  proof (cases j)
    case 0
    with Cons.prems show ?thesis by simp
  next
    case (Suc j')
    from Cons.prems Suc have nx: "\<not> isCurrent cls x" by auto
    have "findCurrent cls xs = j'"
      using Cons.prems Suc by (intro Cons.IH) auto
    with nx Suc show ?thesis by simp
  qed
qed

lemma findCurrent_none:
  "\<forall>x \<in> set xs. \<not> isCurrent cls x \<Longrightarrow> findCurrent cls xs = length xs"
  by (induction xs) auto

lemma add_contains: "classList_contains (classList_add c cls) c"
  by (simp add: classList_contains_def classList_add_def)

lemma remove_contains: "\<not> classList_contains (classList_remove c cls) c"
  by (simp add: classList_contains_def classList_remove_def)

lemma findCurrent_step:
  assumes d: "distinct (map fst xs)" and i: "findCurrent cls xs = i" and lt: "Suc i < length xs"
    and c1: "cls1 = cls(fst (xs ! i) := classList_remove current_sr_elt (cls (fst (xs ! i))))"
    and c2: "cls2 = cls1(fst (xs ! Suc i) := classList_add current_sr_elt (cls1 (fst (xs ! Suc i))))"
  shows "findCurrent cls2 xs = Suc i"
proof (rule findCurrent_eq [OF lt])
  show "isCurrent cls2 (xs ! Suc i)"
    by (simp add: isCurrent_def c2 add_contains)
next
  have neq: "fst (xs ! k) \<noteq> fst (xs ! l)" if "k < length xs" "l < length xs" "k \<noteq> l" for k l
    using d that by (simp add: nth_eq_iff_index_eq [of "map fst xs", symmetric] del: distinct_map)
  show "\<forall>k<Suc i. \<not> isCurrent cls2 (xs ! k)"
  proof (intro allI impI)
    fix k assume k: "k < Suc i"
    show "\<not> isCurrent cls2 (xs ! k)"
    proof (cases "k = i")
      case True
      have "fst (xs ! i) \<noteq> fst (xs ! Suc i)" using lt by (intro neq) auto
      then have "cls2 (fst (xs ! i)) = classList_remove current_sr_elt (cls (fst (xs ! i)))"
        by (simp add: c2 c1)
      with True show ?thesis by (simp add: isCurrent_def remove_contains)
    next
      case False
      with k have ki: "k < i" by simp
      have "fst (xs ! k) \<noteq> fst (xs ! Suc i)" "fst (xs ! k) \<noteq> fst (xs ! i)"
        using lt ki neq [of k "Suc i"] neq [of k i] by simp_all
      then have "cls2 (fst (xs ! k)) = cls (fst (xs ! k))" by (simp add: c2 c1)
      moreover have "\<not> isCurrent cls (xs ! k)" using ki i findCurrent_before by blast
      ultimately show ?thesis by (simp add: isCurrent_def)
    qed
  qed
qed

lemma findCurrent_start:
  "xs \<noteq> [] \<Longrightarrow>
   findCurrent (cls(fst (xs ! 0) := classList_add current_sr_elt (cls (fst (xs ! 0))))) xs = 0"
  by (cases xs) (simp_all add: isCurrent_def add_contains)

lemma allNodes_nonempty: "allNodes n \<noteq> []"
  by (cases n) simp

text \<open>The number of elements from the first marked one to the end; one more when none is marked.\<close>

definition readDistance :: "'cb screenreader \<Rightarrow> nat" where
  "readDistance st =
     (let all = getAllElements (document st);
          prevIdx = findCurrent (classLists st) all
      in if prevIdx = length all then Suc (length all) else length all - prevIdx)"

lemma readDistance_next:
  assumes "all = getAllElements (document st)"
    and "prevIdx = findCurrent (classLists st) all"
    and "Suc prevIdx \<noteq> length all"
    and "st1 = (if prevIdx = length all then st
                else removeCurrent (fst (all ! prevIdx)) (blur (fst (all ! prevIdx)) st))"
    and "nxt = (if prevIdx = length all then 0 else prevIdx + 1)"
    and "st2 = focus (fst (all ! nxt)) (addCurrent (fst (all ! nxt)) st1)"
  shows "document st2 = document st \<and> findCurrent (classLists st2) all = nxt \<and> nxt < length all
     \<and> readDistance st2 < readDistance st"
proof (cases "prevIdx = length all")
  case True
  have ne: "all \<noteq> []" using assms(1) by (simp add: getAllElements_def allNodes_nonempty)
  have doc: "document st2 = document st"
    using assms True by (simp add: focus_def addCurrent_def)
  have "findCurrent (classLists st2) all = 0"
    using assms True findCurrent_start [OF ne, of "classLists st"]
    by (simp add: focus_def addCurrent_def)
  with True doc ne assms show ?thesis by (simp add: readDistance_def Let_def)
next
  case False
  with assms(2,3) have lt: "Suc prevIdx < length all"
    using findCurrent_le [of "classLists st" all] by simp
  have d: "distinct (map fst all)" using assms(1) by (simp add: getAllElements_def allNodes_refs(1))
  have doc: "document st2 = document st"
    using assms False by (simp add: focus_def addCurrent_def removeCurrent_def blur_def)
  have "findCurrent (classLists st2) all = Suc prevIdx"
    by (rule findCurrent_step [OF d assms(2) [symmetric] lt refl])
       (use assms False in \<open>simp add: focus_def addCurrent_def removeCurrent_def blur_def\<close>)
  with False doc lt assms show ?thesis by (simp add: readDistance_def Let_def)
qed

lemmas readDistance_decreases =
  readDistance_next [OF refl refl _ refl refl refl, THEN conjunct2, THEN conjunct2, THEN conjunct2]

text \<open>
  \<open>normalRead\<close>: move the mark to the next element and read it out, or move on
  when the element is one of the reader's own controls or has no string. Each call
  moves the first mark one element further, so the recursion ends.
\<close>

function normalRead :: "'cb screenreader \<Rightarrow> 'cb screenreader" where
  "normalRead st =
     (let all = getAllElements (document st);
          prevIdx = findCurrent (classLists st) all
      in if Suc prevIdx = length all then st
         else
           (let st1 = (if prevIdx = length all then st
                       else removeCurrent (fst (all ! prevIdx)) (blur (fst (all ! prevIdx)) st));
                nxt = (if prevIdx = length all then 0 else prevIdx + 1);
                st2 = focus (fst (all ! nxt)) (addCurrent (fst (all ! nxt)) st1)
            in if startsWith (elem_id (props (snd (all ! nxt)))) ''__sr'' then normalRead st2
               else (case elementToString (snd (all ! nxt)) of
                       Some stringified \<Rightarrow>
                         if truthy stringified then synth_speak stringified st2
                         else normalRead st2
                     | None \<Rightarrow> normalRead st2)))"
  by pat_completeness auto
termination
proof (relation "measure readDistance")
  show "wf (measure readDistance)" by simp
qed (simp_all only: in_measure, (rule readDistance_decreases, assumption)+)

declare normalRead.simps [simp del]

subsection \<open>The on-screen controls and the mode wrappers\<close>

text \<open>
  \<open>renderControls\<close> replaces the content of the element with id \<open>screenReader\<close> by a
  label with the mode's name, the help button and one button for each keybind of the
  current mode. The new elements carry no class. The model builds the elements that the
  browser parses from the assigned \<open>innerHTML\<close>, for descriptions and key names free of
  markup; the click listeners it attaches are not modelled. The function throws where
  \<open>Object.entries\<close> receives \<open>undefined\<close> and where the element is missing.
\<close>

definition digitChar :: "nat \<Rightarrow> char" where
  "digitChar d = ''0123456789'' ! d"

fun decimalString :: "nat \<Rightarrow> string" where
  "decimalString n =
     (if n < 10 then [digitChar n] else decimalString (n div 10) @ [digitChar (n mod 10)])"

definition leaf :: "string \<Rightarrow> string \<Rightarrow> string \<Rightarrow> node" where
  "leaf tag ident txt =
     Node \<lparr>tagName = tag, elem_id = ident, innerText_attr = txt, innerHTML = txt,
           altAttribute = None\<rparr> []"

definition controlButton :: "nat \<Rightarrow> string \<times> 'cb binding \<Rightarrow> node" where
  "controlButton i entry =
     leaf ''BUTTON'' (''__sr_controls_'' @ decimalString i)
       (description (snd entry) @ '' ['' @ fst entry @ '']'')"

definition controlNodes :: "ReaderModality \<Rightarrow> 'cb Binds \<Rightarrow> node list" where
  "controlNodes md modeKeys =
     leaf ''SPAN'' [] (modeName md @ '' '')
     # leaf ''BUTTON'' ''__sr_help'' ''Help [F1]''
     # map (\<lambda>(i, entry). controlButton i entry) (enumerate 0 (Object_entries modeKeys))"

fun replaceKids :: "eref \<Rightarrow> node list \<Rightarrow> node \<Rightarrow> node" where
  "replaceKids [] new (Node e ks) = Node e new"
| "replaceKids (i # p) new (Node e ks) =
     (if i < length ks then Node e (ks[i := replaceKids p new (ks ! i)]) else Node e ks)"

definition properDescendant :: "eref \<Rightarrow> eref \<Rightarrow> bool" where
  "properDescendant p q = (length p < length q \<and> take (length p) q = p)"

definition renderControls :: "'cb screenreader \<Rightarrow> 'cb screenreader outcome" where
  "renderControls st =
     (case mode (modeStack st) of
        None \<Rightarrow> Threw TypeError st
      | Some md \<Rightarrow>
          (case getAllKeybinds (keybinds st) md of
             None \<Rightarrow> Threw TypeError st
           | Some modeKeys \<Rightarrow>
               (case getElementById (document st) ''screenReader'' of
                  None \<Rightarrow> Threw TypeError st
                | Some target \<Rightarrow>
                    Returned (st\<lparr>document :=
                                   replaceKids (fst target) (controlNodes md modeKeys) (document st),
                                 classLists :=
                                   (\<lambda>q. if properDescendant (fst target) q then []
                                        else classLists st q)\<rparr>))))"

text \<open>The script's own \<open>popMode\<close> and \<open>pushMode\<close>, which render the controls again.\<close>

definition popMode_sr :: "'cb screenreader \<Rightarrow> 'cb screenreader outcome" where
  "popMode_sr st = renderControls (st\<lparr>modeStack := snd (popMode (modeStack st))\<rparr>)"

definition pushMode_sr :: "ReaderModality \<Rightarrow> 'cb screenreader \<Rightarrow> 'cb screenreader outcome" where
  "pushMode_sr md st = renderControls (st\<lparr>modeStack := pushMode md (modeStack st)\<rparr>)"

subsection \<open>Table mode\<close>

definition readCell :: "'cb screenreader \<Rightarrow> 'cb screenreader" where
  "readCell st =
     (let all = getAllElements (document st);
          prevIdx = findCurrent (classLists st) all
      in if prevIdx = length all then st
         else
           (let elt = snd (all ! prevIdx);
                toSpeak = (if tagName (props elt) = ''TH'' then ''Column header: ''
                           else if tagName (props elt) = ''TD'' then ''Table cell: ''
                           else [])
            in synth_speak (toSpeak @ innerText elt) st))"

text \<open>
  The handler of the key \<open>t\<close> in NORMAL mode (\<open>registerNormalKeybinds\<close>): enter table
  mode from the marked table, or say why not.
\<close>

definition normal_t :: "'cb screenreader \<Rightarrow> 'cb screenreader outcome" where
  "normal_t st =
     (let all = getAllElements (document st);
          prevIdx = findCurrent (classLists st) all
      in if (if prevIdx = length all then True
             else tagName (props (snd (all ! prevIdx))) \<noteq> ''TABLE'')
         then Returned (synth_speak ''You are currently not hovering over a table element.'' st)
         else
           (let st1 = st\<lparr>synth := stop (synth st)\<rparr>;
                allRows = getElementsByTagName (document st1) (fst (all ! prevIdx)) ''tr''
            in if length allRows = 0
               then Returned (synth_speak ''This table has no rows.'' st1)
               else
                 (let allCols = querySelectorAll_th_td (document st1) (fst (allRows ! 0))
                  in if length allCols = 0
                     then Returned (synth_speak ''This table has no columns.'' st1)
                     else
                       (let st2 = blur (fst (all ! prevIdx))
                                    (removeCurrent (fst (all ! prevIdx)) st1);
                            st3 = addCurrent (fst (allCols ! 0)) st2
                        in case pushMode_sr TABLE st3 of
                             Threw e st4 \<Rightarrow> Threw e st4
                           | Returned st4 \<Rightarrow> Returned (readCell st4)))))"

text \<open>
  \<open>while (tableElt.tagName !== "TABLE") tableElt = tableElt.parentElement!\<close>: the
  nearest table among the element and its ancestors; \<open>None\<close> when the walk passes the
  root, where reading \<open>tagName\<close> of \<open>null\<close> throws.
\<close>

function findTableElt :: "node \<Rightarrow> eref \<Rightarrow> eref option" where
  "findTableElt doc p =
     (case nodeAt doc p of
        None \<Rightarrow> None
      | Some n \<Rightarrow>
          if tagName (props n) \<noteq> ''TABLE''
          then (case parentElement p of None \<Rightarrow> None | Some q \<Rightarrow> findTableElt doc q)
          else Some p)"
  by pat_completeness auto
termination
  by (relation "measure (\<lambda>(doc, p). length p)") (auto simp: parentElement_def split: if_splits)

declare findTableElt.simps [simp del]

text \<open>Leaving the marked cell and taking the next one, as the four arrow handlers do.\<close>

definition moveToCell ::
  "eref \<Rightarrow> (eref \<times> node) option \<Rightarrow> 'cb screenreader \<Rightarrow> 'cb screenreader outcome" where
  "moveToCell prevNode nextNode st =
     (let st1 = removeCurrent prevNode (blur prevNode st)
      in case nextNode of
           None \<Rightarrow> Threw TypeError st1
         | Some nxt \<Rightarrow> Returned (readCell (addCurrent (fst nxt) (focus (fst nxt) st1))))"

text \<open>The handlers of the arrow keys in TABLE mode (\<open>registerTableKeybinds\<close>).\<close>

definition table_ArrowRight :: "'cb screenreader \<Rightarrow> 'cb screenreader outcome" where
  "table_ArrowRight st =
     (let all = getAllElements (document st);
          prevIdx = findCurrent (classLists st) all
      in if prevIdx = length all then Returned st
         else
           (let prevNode = fst (all ! prevIdx)
            in case parentElement prevNode of
                 None \<Rightarrow> Threw TypeError st
               | Some parent \<Rightarrow>
                   (let siblings = querySelectorAll_th_td (document st) parent;
                        prevNodeIdx = indexOf siblings prevNode
                    in if prevNodeIdx < int (length siblings) - 1
                       then moveToCell prevNode (at_index siblings (prevNodeIdx + 1)) st
                       else Returned
                              (synth_speak ''There are no more cells to the right.'' st))))"

definition table_ArrowLeft :: "'cb screenreader \<Rightarrow> 'cb screenreader outcome" where
  "table_ArrowLeft st =
     (let all = getAllElements (document st);
          prevIdx = findCurrent (classLists st) all
      in if prevIdx = length all then Returned st
         else
           (let prevNode = fst (all ! prevIdx)
            in case parentElement prevNode of
                 None \<Rightarrow> Threw TypeError st
               | Some parent \<Rightarrow>
                   (let siblings = querySelectorAll_th_td (document st) parent;
                        prevNodeIdx = indexOf siblings prevNode
                    in if prevNodeIdx > 0
                       then moveToCell prevNode (at_index siblings (prevNodeIdx - 1)) st
                       else Returned
                              (synth_speak ''There are no more cells to the left.'' st))))"

definition table_ArrowDown :: "'cb screenreader \<Rightarrow> 'cb screenreader outcome" where
  "table_ArrowDown st =
     (let all = getAllElements (document st);
          prevIdx = findCurrent (classLists st) all
      in if prevIdx = length all then Returned st
         else
           (let prevNode = fst (all ! prevIdx)
            in case parentElement prevNode of
                 None \<Rightarrow> Threw TypeError st
               | Some parent \<Rightarrow>
                   (let siblings = querySelectorAll_th_td (document st) parent;
                        prevNodeIdx = indexOf siblings prevNode
                    in case findTableElt (document st) prevNode of
                         None \<Rightarrow> Threw TypeError st
                       | Some tableElt \<Rightarrow>
                           (let rows = getElementsByTagName (document st) tableElt ''tr'';
                                rowIdx = indexOf rows parent
                            in if rowIdx = int (length rows) - 1
                               then Returned
                                      (synth_speak ''There are no more rows below this one.'' st)
                               else
                                 (case at_index rows (rowIdx + 1) of
                                    None \<Rightarrow> Threw TypeError st
                                  | Some row \<Rightarrow>
                                      (let belowCells =
                                             querySelectorAll_th_td (document st) (fst row);
                                           nextNode =
                                             at_index belowCells
                                               (min prevNodeIdx (int (length belowCells) - 1))
                                       in moveToCell prevNode nextNode st))))))"

definition table_ArrowUp :: "'cb screenreader \<Rightarrow> 'cb screenreader outcome" where
  "table_ArrowUp st =
     (let all = getAllElements (document st);
          prevIdx = findCurrent (classLists st) all
      in if prevIdx = length all then Returned st
         else
           (let prevNode = fst (all ! prevIdx)
            in case parentElement prevNode of
                 None \<Rightarrow> Threw TypeError st
               | Some parent \<Rightarrow>
                   (let siblings = querySelectorAll_th_td (document st) parent;
                        prevNodeIdx = indexOf siblings prevNode
                    in case findTableElt (document st) prevNode of
                         None \<Rightarrow> Threw TypeError st
                       | Some tableElt \<Rightarrow>
                           (let rows = getElementsByTagName (document st) tableElt ''tr'';
                                rowIdx = indexOf rows parent
                            in if rowIdx = 0
                               then Returned
                                      (synth_speak ''There are no more rows above this one.'' st)
                               else
                                 (case at_index rows (rowIdx - 1) of
                                    None \<Rightarrow> Threw TypeError st
                                  | Some row \<Rightarrow>
                                      (let belowCells =
                                             querySelectorAll_th_td (document st) (fst row);
                                           nextNode =
                                             at_index belowCells
                                               (min prevNodeIdx (int (length belowCells) - 1))
                                       in moveToCell prevNode nextNode st))))))"

text \<open>A sequence of handlers run one after the other; a throw ends the sequence.\<close>

fun runHandlers ::
  "('cb screenreader \<Rightarrow> 'cb screenreader outcome) list \<Rightarrow> 'cb screenreader
     \<Rightarrow> 'cb screenreader outcome" where
  "runHandlers [] st = Returned st"
| "runHandlers (h # hs) st =
     (case h st of Threw e st1 \<Rightarrow> Threw e st1 | Returned st1 \<Rightarrow> runHandlers hs st1)"

chapter \<open>The vocabulary of the properties\<close>

section \<open>Sequences of calls\<close>

text \<open>A call made on the stack from outside, and a sequence of such calls run in order.\<close>

datatype stack_call = PushMode ReaderModality | PopMode

fun stack_step :: "ModalityStack \<Rightarrow> stack_call \<Rightarrow> ModalityStack" where
  "stack_step stack (PushMode m) = pushMode m stack"
| "stack_step stack PopMode = snd (popMode stack)"

definition stack_run :: "stack_call list \<Rightarrow> ModalityStack \<Rightarrow> ModalityStack" where
  "stack_run calls stack = foldl stack_step stack calls"

text \<open>A call that changes the rate, and a sequence of such calls run in order.\<close>

datatype rate_call = IncreaseVoiceRate | DecreaseVoiceRate | ChangeVoiceRate number

fun rate_step :: "'f SpeechSynth \<Rightarrow> rate_call \<Rightarrow> 'f SpeechSynth" where
  "rate_step s IncreaseVoiceRate = increaseVoiceRate s"
| "rate_step s DecreaseVoiceRate = decreaseVoiceRate s"
| "rate_step s (ChangeVoiceRate factor) = changeVoiceRate factor s"

definition rate_run :: "rate_call list \<Rightarrow> 'f SpeechSynth \<Rightarrow> 'f SpeechSynth" where
  "rate_run calls s = foldl rate_step s calls"

text \<open>The rate is a finite number of the interval from 0.25 to 4.\<close>

definition rateInRange :: "number \<Rightarrow> bool" where
  "rateInRange n = (case n of Fin r \<Rightarrow> 1/4 \<le> r \<and> r \<le> 4 | _ \<Rightarrow> False)"

text \<open>A sequence of registrations, run in order; the first error ends the run.\<close>

fun registerAll ::
  "(ReaderModality \<times> string \<times> string \<times> 'cb) list \<Rightarrow> 'cb Keybinds \<Rightarrow> error + 'cb Keybinds" where
  "registerAll [] kbs = Inr kbs"
| "registerAll ((forMode, keyName, descr, cb) # regs) kbs =
     (case registerKeybind kbs forMode keyName descr cb of
        Inl e \<Rightarrow> Inl e
      | Inr kbs' \<Rightarrow> registerAll regs kbs')"

text \<open>The invariant of the array: every mode's index holds a map.\<close>

definition modesDefined :: "'cb Keybinds \<Rightarrow> bool" where
  "modesDefined kbs = (\<forall>m. kbs (modeIndex m) \<noteq> None)"

text \<open>
  A key that a read can find on the prototype chain of a map of keybinds: a member of
  \<open>Object.prototype\<close>, or \<open>description\<close> or \<open>callback\<close>, the members of a binding
  object that a registration under \<open>__proto__\<close> made the prototype.
\<close>

definition inheritedName :: "string \<Rightarrow> bool" where
  "inheritedName key =
     (key = ''__proto__'' \<or> key \<in> set objectPrototypeFunctions
      \<or> key = ''description'' \<or> key = ''callback'')"

section \<open>Reading positions and marks\<close>

text \<open>
  An element that forward reading stops at: it is not one of the reader's own controls
  (its id does not start with \<open>__sr\<close>) and \<open>elementToString\<close> gives it a string
  that is not empty. \<open>narration\<close> is that string.
\<close>

definition readable :: "eref \<times> node \<Rightarrow> bool" where
  "readable x =
     (\<not> startsWith (elem_id (props (snd x))) ''__sr''
      \<and> (case elementToString (snd x) of Some stringified \<Rightarrow> truthy stringified | None \<Rightarrow> False))"

definition narration :: "eref \<times> node \<Rightarrow> string" where
  "narration x = (case elementToString (snd x) of Some stringified \<Rightarrow> stringified | None \<Rightarrow> [])"

text \<open>No element of the document but the one at index \<open>i\<close> carries the mark.\<close>

definition markedOnlyAt :: "(eref \<Rightarrow> string list) \<Rightarrow> (eref \<times> node) list \<Rightarrow> nat \<Rightarrow> bool" where
  "markedOnlyAt cls all i = (\<forall>k < length all. isCurrent cls (all ! k) \<longrightarrow> k = i)"

text \<open>The element at \<open>p\<close>, and no other, carries the mark.\<close>

definition onlyMarked :: "(eref \<Rightarrow> string list) \<Rightarrow> eref \<Rightarrow> bool" where
  "onlyMarked cls p = (\<forall>q. classList_contains (cls q) current_sr_elt = (q = p))"

text \<open>What \<open>readCell\<close> says for a cell.\<close>

definition cellText :: "node \<Rightarrow> string" where
  "cellText elt =
     (if tagName (props elt) = ''TH'' then ''Column header: ''
      else if tagName (props elt) = ''TD'' then ''Table cell: ''
      else []) @ innerText elt"

text \<open>
  The reader \<open>st'\<close> after a refused entry from \<open>st\<close>: the mode stack, the document and
  the marks are as before, and the engine holds the message alone.
\<close>

definition refusedWith :: "string \<Rightarrow> 'cb screenreader \<Rightarrow> 'cb screenreader \<Rightarrow> bool" where
  "refusedWith msg st st' =
     (modeStack st' = modeStack st \<and> mode (modeStack st') = mode (modeStack st)
      \<and> document st' = document st \<and> classLists st' = classLists st
      \<and> engineQueue (voiceSynth (synth st')) = [Utterance msg (speechRate (synth st)) () ()])"

text \<open>The reader a handler leaves behind, whether it returned or threw.\<close>

fun stateOf :: "'a outcome \<Rightarrow> 'a" where
  "stateOf (Returned s) = s"
| "stateOf (Threw e s) = s"

text \<open>
  The position of the marked cell as the handlers compute it: the cell is the \<open>c\<close>-th
  header or data cell under its parent, and the parent is the \<open>r\<close>-th row of the
  nearest table.
\<close>

definition cellPosition ::
  "'cb screenreader \<Rightarrow> eref \<Rightarrow> (eref \<times> node) list \<Rightarrow> int \<Rightarrow> int \<Rightarrow> bool" where
  "cellPosition st prevNode rows r c =
     (let all = getAllElements (document st);
          i = findCurrent (classLists st) all
      in i \<noteq> length all \<and> prevNode = fst (all ! i)
         \<and> onlyMarked (classLists st) prevNode
         \<and> (case parentElement prevNode of
               None \<Rightarrow> False
             | Some parent \<Rightarrow>
                 c = indexOf (querySelectorAll_th_td (document st) parent) prevNode
                 \<and> (case findTableElt (document st) prevNode of
                       None \<Rightarrow> False
                     | Some tableElt \<Rightarrow>
                         rows = getElementsByTagName (document st) tableElt ''tr''
                         \<and> r = indexOf rows parent))
         \<and> 0 \<le> r \<and> 0 \<le> c)"

text \<open>The header and data cells of a row, as \<open>querySelectorAll("th,td")\<close> lists them.\<close>

definition cellsOf :: "'cb screenreader \<Rightarrow> eref \<times> node \<Rightarrow> (eref \<times> node) list" where
  "cellsOf st row = querySelectorAll_th_td (document st) (fst row)"

section \<open>Example pages\<close>

text \<open>
  The page of the example: a header, a button the reader injected and a paragraph, in
  this order, in the body; and the reader right after start, with no element marked.
\<close>

definition el :: "string \<Rightarrow> node list \<Rightarrow> node" where
  "el tag ks =
     Node \<lparr>tagName = tag, elem_id = [], innerText_attr = [], innerHTML = [],
           altAttribute = None\<rparr> ks"

definition examplePage :: node where
  "examplePage =
     el ''HTML''
       [el ''BODY''
          [leaf ''H1'' [] ''Welcome'',
           leaf ''BUTTON'' ''__sr_help'' ''Help [F1]'',
           leaf ''P'' [] ''Hello'']]"

definition readerOn :: "node \<Rightarrow> 'cb screenreader" where
  "readerOn page =
     \<lparr>document = page, classLists = (\<lambda>p. []), domCalls = [], keybinds = Keybinds_new,
      synth = SpeechSynth_new, modeStack = ModalityStack_new\<rparr>"

definition exampleReader :: "unit screenreader" where
  "exampleReader = readerOn examplePage"

text \<open>
  Pages for the four cases: the reader's own container followed by a paragraph, by a
  table without rows, by a table whose only row is empty, and by a table of two rows of
  two cells; the reader is in NORMAL mode with the mark on that second element.
\<close>

definition pageWith :: "node \<Rightarrow> node" where
  "pageWith content =
     el ''HTML''
       [el ''BODY''
          [Node \<lparr>tagName = ''DIV'', elem_id = ''screenReader'', innerText_attr = [],
                 innerHTML = [], altAttribute = None\<rparr> [],
           content]]"

definition readerAt :: "node \<Rightarrow> eref \<Rightarrow> ReaderModality list \<Rightarrow> unit screenreader" where
  "readerAt page marked stack =
     (readerOn page)\<lparr>classLists := (\<lambda>p. [])(marked := [current_sr_elt]), modeStack := stack\<rparr>"

definition onParagraph :: "unit screenreader" where
  "onParagraph = readerAt (pageWith (leaf ''P'' [] ''Hello'')) [0, 1] [NORMAL]"

definition onEmptyTable :: "unit screenreader" where
  "onEmptyTable = readerAt (pageWith (el ''TABLE'' [])) [0, 1] [NORMAL]"

definition onTableOfEmptyRow :: "unit screenreader" where
  "onTableOfEmptyRow = readerAt (pageWith (el ''TABLE'' [el ''TR'' []])) [0, 1] [NORMAL]"

definition onTableOfCells :: "unit screenreader" where
  "onTableOfCells =
     readerAt (pageWith (el ''TABLE'' [el ''TR'' [leaf ''TH'' [] ''Name'', leaf ''TH'' [] ''Age''],
                                       el ''TR'' [leaf ''TD'' [] ''Ada'', leaf ''TD'' [] ''36'']]))
       [0, 1] [NORMAL]"

text \<open>
  Two tables in the page of the previous section, each with its rows in a \<open>tbody\<close>:
  a ragged one, whose first row has one cell and whose second row has three, and one
  whose second row has no cell. The reader is in TABLE mode with the mark on the first
  cell of the first row.
\<close>

definition tableOf :: "node list \<Rightarrow> node" where
  "tableOf rows = el ''TABLE'' [el ''TBODY'' rows]"

definition cellRef :: "nat \<Rightarrow> nat \<Rightarrow> eref" where
  "cellRef r c = [0, 1, 0, r, c]"

definition inRaggedTable :: "unit screenreader" where
  "inRaggedTable =
     readerAt
       (pageWith (tableOf
          [el ''TR'' [leaf ''TD'' [] ''a''],
           el ''TR'' [leaf ''TD'' [] ''b'', leaf ''TD'' [] ''c'', leaf ''TD'' [] ''d'']]))
       (cellRef 0 0) [NORMAL, TABLE]"

definition aboveEmptyRow :: "unit screenreader" where
  "aboveEmptyRow =
     readerAt (pageWith (tableOf [el ''TR'' [leaf ''TD'' [] ''a''], el ''TR'' []]))
       (cellRef 0 0) [NORMAL, TABLE]"

chapter \<open>The properties\<close>

section \<open>Properties of the mode stack\<close>

lemma stack_step_nonempty: "stack \<noteq> [] \<Longrightarrow> stack_step stack c \<noteq> []"
proof (cases c)
  case (PushMode m)
  then show ?thesis by (simp add: pushMode_def)
next
  case PopMode
  assume ne: "stack \<noteq> []"
  show ?thesis
  proof (cases "length stack = 1")
    case True
    with PopMode ne show ?thesis by (simp add: popMode_def)
  next
    case False
    with ne have "butlast stack \<noteq> []" by (cases stack) auto
    with PopMode False ne show ?thesis by (simp add: popMode_def array_pop_def)
  qed
qed

lemma stack_run_nonempty: "stack \<noteq> [] \<Longrightarrow> stack_run calls stack \<noteq> []"
  unfolding stack_run_def
  by (induction calls arbitrary: stack) (simp_all add: stack_step_nonempty)

text \<open>
  Claim C1. The mode stack is never empty: it is constructed as \<open>[NORMAL, PAUSED]\<close>,
  \<open>pushMode\<close> appends exactly one mode, \<open>popMode\<close> on a stack of length 1 returns
  the sole entry and leaves the stack as it is, and after every sequence of
  \<open>pushMode\<close>/\<open>popMode\<close> calls the stack has length at least 1 and \<open>mode()\<close>
  is a defined mode.
\<close>

theorem C1_stack_never_empty:
  "ModalityStack_new = [NORMAL, PAUSED]
   \<and> pushMode m stack = stack @ [m]
   \<and> popMode [m] = (Some m, [m])
   \<and> 1 \<le> length (stack_run calls ModalityStack_new)
   \<and> (\<exists>md. mode (stack_run calls ModalityStack_new) = Some md)"
proof -
  have ne: "stack_run calls ModalityStack_new \<noteq> []"
    by (rule stack_run_nonempty) (simp add: ModalityStack_new_def)
  then have "1 \<le> length (stack_run calls ModalityStack_new)"
    by (cases "stack_run calls ModalityStack_new") auto
  moreover from ne have "\<exists>md. mode (stack_run calls ModalityStack_new) = Some md"
    by (simp add: mode_def)
  ultimately show ?thesis
    by (simp add: ModalityStack_new_def pushMode_def popMode_def)
qed

section \<open>Properties of the speech proxy\<close>

subsection \<open>The rate stays between 0.25 and 4\<close>

lemma changeVoiceRate_range:
  "factor \<noteq> NaN \<Longrightarrow> rateInRange (speechRate s) \<Longrightarrow>
   rateInRange (speechRate (changeVoiceRate factor s))"
  by (cases factor; cases "speechRate s")
     (auto simp: rateInRange_def changeVoiceRate_def Let_def num_greater_def)

lemma rate_step_range:
  "c \<noteq> ChangeVoiceRate NaN \<Longrightarrow> rateInRange (speechRate s) \<Longrightarrow>
   rateInRange (speechRate (rate_step s c))"
  by (cases c) (simp_all add: increaseVoiceRate_def decreaseVoiceRate_def changeVoiceRate_range)

lemma rate_run_range:
  "\<forall>c \<in> set calls. c \<noteq> ChangeVoiceRate NaN \<Longrightarrow> rateInRange (speechRate s) \<Longrightarrow>
   rateInRange (speechRate (rate_run calls s))"
  unfolding rate_run_def
  by (induction calls arbitrary: s) (simp_all add: rate_step_range)

lemma changeVoiceRate_finite:
  "speechRate s = Fin r \<Longrightarrow>
   speechRate (changeVoiceRate (Fin f) s) = Fin (max (1/4) (min 4 (r * f)))"
  by (auto simp: changeVoiceRate_def Let_def num_greater_def)

text \<open>From a rate between 1 and 4, \<open>n\<close> increases give the smaller of 4 and \<open>r * 1.1^n\<close>.\<close>

lemma increase_iterated:
  "speechRate s = Fin r \<Longrightarrow> 1 \<le> r \<Longrightarrow> r \<le> 4 \<Longrightarrow>
   speechRate ((increaseVoiceRate ^^ n) s) = Fin (min 4 (r * (11/10) ^ n))
   \<and> 1 \<le> min 4 (r * (11/10) ^ n)"
proof (induction n)
  case 0
  then show ?case by simp
next
  case (Suc n)
  let ?q = "min 4 (r * (11/10) ^ n)"
  from Suc have ih: "speechRate ((increaseVoiceRate ^^ n) s) = Fin ?q" and q1: "1 \<le> ?q"
    by simp_all
  have pos: "0 \<le> r * (11 / 10) ^ n" using Suc.prems by simp
  have eq: "min 4 (?q * (11/10)) = min 4 (r * (11/10) ^ Suc n)"
    using pos by (auto simp: min_def)
  have "speechRate ((increaseVoiceRate ^^ Suc n) s) = Fin (max (1/4) (min 4 (?q * (11/10))))"
    using changeVoiceRate_finite [OF ih, of "11/10"] by (simp add: increaseVoiceRate_def)
  moreover have "1 \<le> min 4 (?q * (11/10))" using q1 by (auto simp: min_def)
  ultimately show ?case using eq by (simp add: max_def)
qed

lemma four_le_power_50: "(4::real) \<le> (11/10) ^ 50"
  by (simp add: power_divide)

lemma increase_50:
  "speechRate ((increaseVoiceRate ^^ 50) (SpeechSynth_new :: 'f SpeechSynth)) = Fin 4"
  using increase_iterated [of "SpeechSynth_new :: 'f SpeechSynth" 1 50] four_le_power_50
  by (simp add: SpeechSynth_new_def)

text \<open>
  Claim C6, as the code has it. Starting from the initial rate 1.0, after every finite
  sequence of \<open>increaseVoiceRate\<close>, \<open>decreaseVoiceRate\<close> and \<open>changeVoiceRate(factor)\<close>
  calls whose factors are not \<open>NaN\<close>, the speech rate lies within [0.25, 4.0];
  \<open>changeVoiceRate\<close> multiplies the current rate by the factor and then clamps the
  product to that interval (the two convenience calls use the factors 1.1 and 0.9); and
  starting at 1.0, fifty calls of \<open>increaseVoiceRate\<close> give exactly 4.0.
\<close>

theorem C6_rate_clamped:
  "((\<forall>c \<in> set calls. c \<noteq> ChangeVoiceRate NaN) \<longrightarrow>
      rateInRange (speechRate (rate_run calls (SpeechSynth_new :: 'f SpeechSynth))))
   \<and> (speechRate (s :: 'f SpeechSynth) = Fin r \<longrightarrow>
      speechRate (changeVoiceRate (Fin f) s) = Fin (max (1/4) (min 4 (r * f))))
   \<and> increaseVoiceRate s = changeVoiceRate (Fin (11/10)) s
   \<and> decreaseVoiceRate s = changeVoiceRate (Fin (9/10)) s
   \<and> speechRate ((increaseVoiceRate ^^ 50) (SpeechSynth_new :: 'f SpeechSynth)) = Fin 4"
proof -
  have "rateInRange (speechRate (SpeechSynth_new :: 'f SpeechSynth))"
    by (simp add: SpeechSynth_new_def rateInRange_def)
  then have "(\<forall>c \<in> set calls. c \<noteq> ChangeVoiceRate NaN) \<longrightarrow>
      rateInRange (speechRate (rate_run calls (SpeechSynth_new :: 'f SpeechSynth)))"
    by (simp add: rate_run_range)
  then show ?thesis
    by (simp add: changeVoiceRate_finite increase_50 increaseVoiceRate_def decreaseVoiceRate_def)
qed

theorem C6_rate_clamped_witness:
  "rateInRange (speechRate (rate_run
      [IncreaseVoiceRate, ChangeVoiceRate (Fin 100), DecreaseVoiceRate,
       ChangeVoiceRate NegInf, ChangeVoiceRate PosInf] (SpeechSynth_new :: unit SpeechSynth)))
   \<and> speechRate (changeVoiceRate (Fin 3) (SpeechSynth_new :: unit SpeechSynth)) = Fin 3
   \<and> speechRate (changeVoiceRate (Fin 5) (SpeechSynth_new :: unit SpeechSynth)) = Fin 4
   \<and> speechRate (changeVoiceRate (Fin (1/10)) (SpeechSynth_new :: unit SpeechSynth)) = Fin (1/4)"
  using C6_rate_clamped [of "[IncreaseVoiceRate, ChangeVoiceRate (Fin 100), DecreaseVoiceRate,
      ChangeVoiceRate NegInf, ChangeVoiceRate PosInf]" "SpeechSynth_new :: unit SpeechSynth" 1 3]
    C6_rate_clamped [of "[]" "SpeechSynth_new :: unit SpeechSynth" 1 5]
    C6_rate_clamped [of "[]" "SpeechSynth_new :: unit SpeechSynth" 1 "1/10"]
  by (simp add: SpeechSynth_new_def)

text \<open>
  The claim as the specification states it, for every factor, fails on the factor
  \<open>NaN\<close>: the product is \<open>NaN\<close>, both comparisons of \<open>changeVoiceRate\<close> are
  false, and the rate stays \<open>NaN\<close>.
\<close>

theorem C6_rate_NaN_counterexample:
  "\<not> rateInRange (speechRate
      (rate_run [ChangeVoiceRate NaN] (SpeechSynth_new :: unit SpeechSynth)))"
  by (simp add: rate_run_def changeVoiceRate_def SpeechSynth_new_def rateInRange_def
      num_greater_def Let_def)

subsection \<open>Speaking, pausing and resuming\<close>

text \<open>
  Claim C7. Every call of \<open>speak(text, onStart, onEnd)\<close> first cancels the engine
  (through \<open>stop()\<close>) and then submits one new utterance with the given text at the
  current speech rate; so after the call the engine's queue holds that utterance alone,
  and after two calls in succession the first utterance is no longer queued: it cannot
  finish narrating.
\<close>

theorem C7_speak_cancels_first:
  "voiceSynth (speak txt onStart onEnd s)
     = voiceSynth s @ [EngineCancel, EngineSpeak (Utterance txt (speechRate s) onStart onEnd)]
   \<and> voiceSynth (stop s) = voiceSynth s @ [EngineCancel]
   \<and> engineQueue (voiceSynth (speak txt onStart onEnd s))
     = [Utterance txt (speechRate s) onStart onEnd]
   \<and> engineQueue (voiceSynth (speak txt2 onStart2 onEnd2 (speak txt onStart onEnd s)))
     = [Utterance txt2 (speechRate s) onStart2 onEnd2]"
  by (simp add: speak_def stop_def Let_def engineQueue_def)

text \<open>
  Claim C8. \<open>pause()\<close> and \<open>resume()\<close> are idempotent: \<open>pause()\<close> on a state whose
  \<open>isPause\<close> is already true changes nothing, \<open>resume()\<close> on a state whose
  \<open>isPause\<close> is false changes nothing, \<open>pause(); pause()\<close> leaves the same state
  as \<open>pause()\<close> (the engine is paused once, not twice), and \<open>resume(); resume()\<close>
  the same state as \<open>resume()\<close>.
\<close>

theorem C8_pause_resume_idempotent:
  "(isPause s \<longrightarrow> pause s = s)
   \<and> (\<not> isPause s \<longrightarrow> resume s = s)
   \<and> pause (pause s) = pause s
   \<and> resume (resume s) = resume s
   \<and> length (filter (\<lambda>c. c = EnginePause) (voiceSynth (pause (pause s))))
       = length (filter (\<lambda>c. c = EnginePause) (voiceSynth (pause s)))"
  by (simp add: pause_def resume_def)

theorem C8_pause_resume_idempotent_witness:
  "isPause (pause (SpeechSynth_new :: unit SpeechSynth))
   \<and> pause (pause SpeechSynth_new) = pause (SpeechSynth_new :: unit SpeechSynth)
   \<and> \<not> isPause (SpeechSynth_new :: unit SpeechSynth)
   \<and> resume SpeechSynth_new = (SpeechSynth_new :: unit SpeechSynth)"
  using C8_pause_resume_idempotent [of "pause (SpeechSynth_new :: unit SpeechSynth)"]
    C8_pause_resume_idempotent [of "SpeechSynth_new :: unit SpeechSynth"]
  by (simp add: pause_def SpeechSynth_new_def)

text \<open>
  Claim C9. \<open>stopNGo()\<close> leaves the flag \<open>isPause\<close> as it was before the call: the
  inner \<open>pause()\<close> or \<open>resume()\<close> flips it and the trailing assignment flips it
  back, while the engine itself receives the pause or the resume.
\<close>

theorem C9_stopNGo_keeps_flag:
  "isPause (stopNGo s) = isPause s
   \<and> voiceSynth (stopNGo s)
       = voiceSynth s @ [if isPause s then EngineResume else EnginePause]"
  by (simp add: stopNGo_def pause_def resume_def Let_def)

section \<open>Properties of the keybind registry\<close>

lemma Keybinds_new_mode: "(Keybinds_new :: 'cb Keybinds) (modeIndex m) = Some emptyObject"
  by (cases m)
     (simp_all add: Keybinds_new_def ReaderModality_keys_def Number_of_key_def digitValue_def)

lemma Keybinds_new_index:
  "(Keybinds_new :: 'cb Keybinds) i = (if i < 4 then Some emptyObject else None)"
  by (simp add: Keybinds_new_def ReaderModality_keys_def Number_of_key_def digitValue_def)

lemma registerKeybind_defined:
  "modesDefined kbs \<Longrightarrow>
   \<exists>kbs'. registerKeybind kbs forMode keyName descr cb = Inr kbs'
      \<and> modesDefined kbs'"
  by (auto simp: modesDefined_def registerKeybind_def split: option.splits)

lemma registerAll_defined:
  "modesDefined kbs \<Longrightarrow>
   \<exists>kbs'. registerAll regs kbs = Inr kbs' \<and> modesDefined kbs'"
proof (induction regs arbitrary: kbs)
  case Nil
  then show ?case by simp
next
  case (Cons reg regs)
  obtain forMode keyName descr cb where reg: "reg = (forMode, keyName, descr, cb)"
    by (cases reg) auto
  from registerKeybind_defined [OF Cons.prems, of forMode keyName descr cb]
  obtain kb1 where kb1:
    "registerKeybind kbs forMode keyName descr cb = Inr kb1" "modesDefined kb1"
    by blast
  from Cons.IH [OF kb1(2)] kb1(1) reg show ?case by simp
qed

text \<open>On a defined map \<open>triggerEvent\<close> can only fail by calling a callback that is not there.\<close>

lemma triggerEvent_on_defined_map:
  "kbs (modeIndex md) = Some binds \<Longrightarrow> triggerEvent kbs md keyName \<noteq> Inl TypeError"
  by (simp add: triggerEvent_def split: propertyValue.splits)

lemma getProperty_ordinary_key:
  "\<not> inheritedName keyName \<Longrightarrow>
   getProperty binds keyName = Undefined
   \<or> (\<exists>b. getProperty binds keyName = BindingObject b)"
  by (auto simp: getProperty_def inheritedName_def split: option.splits)

lemma triggerEvent_ordinary_key:
  assumes "kbs (modeIndex md) = Some binds" and "\<not> inheritedName keyName"
  shows "\<exists>invoked. triggerEvent kbs md keyName = Inr invoked"
  using getProperty_ordinary_key [OF assms(2), of binds] assms(1)
  by (auto simp: triggerEvent_def isTruthy_def)

text \<open>
  The throwing path of \<open>triggerEvent\<close>: on the constructed registry the key
  \<open>constructor\<close> finds the inherited function, and the call of its missing
  \<open>callback\<close> throws.
\<close>

lemma triggerEvent_inherited_key_throws:
  "triggerEvent (Keybinds_new :: nat Keybinds) NORMAL ''constructor''
     = Inl TypeError_not_a_function"
  by (simp add: triggerEvent_def Keybinds_new_index getProperty_def emptyObject_def
      objectPrototypeFunctions_def isTruthy_def)

text \<open>
  Claim C10. The constructor of \<open>Keybinds\<close> puts an empty binding map at the array index
  of every \<open>ReaderModality\<close> value; so on the registry after any sequence of
  registrations, for every mode, \<open>getAllKeybinds\<close> returns a defined map,
  \<open>registerKeybind\<close> and \<open>getHelpString\<close> return without an error, and
  \<open>triggerEvent\<close> never reads a property of \<open>undefined\<close>: for a key that is not the
  name of an inherited member it returns, and for any key the one error left to it is
  the call of a missing callback, not an access to an undefined map.
\<close>

theorem C10_every_mode_has_a_map:
  "(Keybinds_new :: 'cb Keybinds) (modeIndex m) = Some emptyObject
   \<and> (\<exists>kbs :: 'cb Keybinds. registerAll regs Keybinds_new = Inr kbs
        \<and> (\<forall>md keyName descr cb.
             (\<exists>binds. getAllKeybinds kbs md = Some binds)
           \<and> (\<exists>kbs'. registerKeybind kbs md keyName descr cb = Inr kbs')
           \<and> (\<exists>helpString. getHelpString kbs md = Inr helpString)
           \<and> triggerEvent kbs md keyName \<noteq> Inl TypeError
           \<and> (\<not> inheritedName keyName
                \<longrightarrow> (\<exists>invoked. triggerEvent kbs md keyName = Inr invoked))))"
proof -
  have "modesDefined (Keybinds_new :: 'cb Keybinds)"
    by (simp add: modesDefined_def Keybinds_new_mode)
  from registerAll_defined [OF this, of regs]
  obtain kbs :: "'cb Keybinds"
    where kb: "registerAll regs Keybinds_new = Inr kbs" "modesDefined kbs"
    by blast
  have all: "(\<exists>binds. getAllKeybinds kbs md = Some binds)
           \<and> (\<exists>kbs'. registerKeybind kbs md keyName descr cb = Inr kbs')
           \<and> (\<exists>helpString. getHelpString kbs md = Inr helpString)
           \<and> triggerEvent kbs md keyName \<noteq> Inl TypeError
           \<and> (\<not> inheritedName keyName
                \<longrightarrow> (\<exists>invoked. triggerEvent kbs md keyName = Inr invoked))"
    for md keyName descr and cb :: 'cb
  proof -
    obtain binds where binds: "kbs (modeIndex md) = Some binds"
      using kb(2) by (auto simp: modesDefined_def)
    have "\<exists>kbs'. registerKeybind kbs md keyName descr cb = Inr kbs'"
      using binds by (simp add: registerKeybind_def)
    moreover have "\<exists>helpString. getHelpString kbs md = Inr helpString"
      using binds by (simp add: getHelpString_def)
    moreover have "\<exists>binds. getAllKeybinds kbs md = Some binds"
      using binds by (simp add: getAllKeybinds_def)
    ultimately show ?thesis
      using binds triggerEvent_on_defined_map [of kbs md binds keyName]
        triggerEvent_ordinary_key [of kbs md binds keyName]
      by blast
  qed
  from kb(1) all show ?thesis by (simp add: Keybinds_new_mode)
qed

theorem C10_every_mode_has_a_map_witness:
  "(Keybinds_new :: nat Keybinds) (modeIndex NORMAL) = Some emptyObject
   \<and> \<not> inheritedName ''p''
   \<and> (\<exists>kbs :: nat Keybinds.
        registerAll [(NORMAL, ''p'', ''Pause'', 7), (TABLE, ''q'', ''Exit the table'', 8)]
          Keybinds_new = Inr kbs
        \<and> (\<exists>invoked. triggerEvent kbs NORMAL ''p'' = Inr invoked)
        \<and> (\<exists>binds. getAllKeybinds kbs PAUSED = Some binds))"
proof -
  have h: "\<not> inheritedName ''p''"
    by (simp add: inheritedName_def objectPrototypeFunctions_def)
  from C10_every_mode_has_a_map
    [of NORMAL "[(NORMAL, ''p'', ''Pause'', 7 :: nat), (TABLE, ''q'', ''Exit the table'', 8)]"]
  obtain kbs :: "nat Keybinds" where kbs:
    "registerAll [(NORMAL, ''p'', ''Pause'', 7), (TABLE, ''q'', ''Exit the table'', 8)]
       Keybinds_new = Inr kbs"
    "\<And>md keyName. \<exists>binds. getAllKeybinds kbs md = Some binds"
    "\<And>md keyName. \<not> inheritedName keyName
        \<longrightarrow> (\<exists>invoked. triggerEvent kbs md keyName = Inr invoked)"
    by blast
  from kbs(3) [of "''p''" NORMAL] h
  have "\<exists>invoked. triggerEvent kbs NORMAL ''p'' = Inr invoked" by blast
  with kbs(1) kbs(2) [of PAUSED] h Keybinds_new_mode [of NORMAL, where 'cb = nat]
  show ?thesis by blast
qed

section \<open>Forward reading\<close>

lemma normalRead_end:
  "Suc (findCurrent (classLists st) (getAllElements (document st))) = length (getAllElements (document st))
   \<Longrightarrow> normalRead st = st"
  by (subst normalRead.simps) (simp add: Let_def)

lemma normalRead_unfold:
  assumes "all = getAllElements (document st)"
    and "prevIdx = findCurrent (classLists st) all"
    and "Suc prevIdx \<noteq> length all"
    and "st1 = (if prevIdx = length all then st
                else removeCurrent (fst (all ! prevIdx)) (blur (fst (all ! prevIdx)) st))"
    and "nxt = (if prevIdx = length all then 0 else prevIdx + 1)"
    and "st2 = focus (fst (all ! nxt)) (addCurrent (fst (all ! nxt)) st1)"
  shows "normalRead st =
           (if readable (all ! nxt) then synth_speak (narration (all ! nxt)) st2
            else normalRead st2)"
  using assms
  by (subst normalRead.simps)
     (simp add: Let_def readable_def narration_def split: option.splits)

lemma step_frame:
  assumes "st1 = (if prevIdx = length all then st
                else removeCurrent (fst (all ! prevIdx)) (blur (fst (all ! prevIdx)) st))"
    and "st2 = focus (fst (all ! nxt)) (addCurrent (fst (all ! nxt)) st1)"
  shows "synth st2 = synth st \<and> modeStack st2 = modeStack st \<and> keybinds st2 = keybinds st"
  using assms by (simp add: focus_def addCurrent_def removeCurrent_def blur_def)

lemma step_only_mark:
  assumes all: "all = getAllElements (document st)"
    and i: "prevIdx = findCurrent (classLists st) all"
    and ne: "Suc prevIdx \<noteq> length all"
    and st1: "st1 = (if prevIdx = length all then st
                else removeCurrent (fst (all ! prevIdx)) (blur (fst (all ! prevIdx)) st))"
    and nxt: "nxt = (if prevIdx = length all then 0 else prevIdx + 1)"
    and st2: "st2 = focus (fst (all ! nxt)) (addCurrent (fst (all ! nxt)) st1)"
    and only: "markedOnlyAt (classLists st) all prevIdx"
  shows "markedOnlyAt (classLists st2) all nxt"
  unfolding markedOnlyAt_def
proof (intro allI impI)
  fix k assume k: "k < length all" and cur: "isCurrent (classLists st2) (all ! k)"
  have d: "distinct (map fst all)" using all by (simp add: getAllElements_def allNodes_refs(1))
  have neq: "fst (all ! a) \<noteq> fst (all ! b)" if "a < length all" "b < length all" "a \<noteq> b" for a b
    using d that by (simp add: nth_eq_iff_index_eq [of "map fst all", symmetric] del: distinct_map)
  have nl: "nxt < length all"
    using readDistance_next [OF all i ne st1 nxt st2] by simp
  show "k = nxt"
  proof (rule ccontr)
    assume kn: "k \<noteq> nxt"
    then have k2: "classLists st2 (fst (all ! k)) = classLists st1 (fst (all ! k))"
      using neq [OF k nl] st2 by (simp add: focus_def addCurrent_def)
    show False
    proof (cases "prevIdx = length all")
      case True
      then have "classLists st1 = classLists st" using st1 by simp
      with k2 cur have "isCurrent (classLists st) (all ! k)" by (simp add: isCurrent_def)
      with only k have "k = prevIdx" by (simp add: markedOnlyAt_def)
      with True k show False by simp
    next
      case False
      then have pl: "prevIdx < length all"
        using i findCurrent_le [of "classLists st" all] by simp
      show False
      proof (cases "k = prevIdx")
        case True
        then have "classLists st1 (fst (all ! k)) = classList_remove current_sr_elt (classLists st (fst (all ! k)))"
          using st1 False by (simp add: removeCurrent_def blur_def)
        with k2 cur show False by (simp add: isCurrent_def remove_contains)
      next
        case kp: False
        then have "classLists st1 (fst (all ! k)) = classLists st (fst (all ! k))"
          using st1 False neq [OF k pl] by (simp add: removeCurrent_def blur_def)
        with k2 cur have "isCurrent (classLists st) (all ! k)" by (simp add: isCurrent_def)
        with only k kp show False by (simp add: markedOnlyAt_def)
      qed
    qed
  qed
qed

lemma normalRead_next_readable:
  assumes "all = getAllElements (document st)"
    and "i = findCurrent (classLists st) all"
    and "start = (if i = length all then 0 else Suc i)"
    and "start \<le> j" and "j < length all"
    and "readable (all ! j)"
    and "\<forall>k. start \<le> k \<and> k < j \<longrightarrow> \<not> readable (all ! k)"
  shows "synth (normalRead st) = speak (narration (all ! j)) () () (synth st)
     \<and> document (normalRead st) = document st
     \<and> modeStack (normalRead st) = modeStack st
     \<and> findCurrent (classLists (normalRead st)) all = j
     \<and> (markedOnlyAt (classLists st) all i \<longrightarrow> markedOnlyAt (classLists (normalRead st)) all j)"
  using assms
proof (induction "readDistance st" arbitrary: st i start rule: less_induct)
  case less
  note all = less.prems(1) and i = less.prems(2) and start = less.prems(3)
  have ne: "Suc i \<noteq> length all"
    using start less.prems(4,5) by (auto split: if_splits)
  define st1 where "st1 = (if i = length all then st
                else removeCurrent (fst (all ! i)) (blur (fst (all ! i)) st))"
  define nxt where "nxt = (if i = length all then 0 else i + 1)"
  define st2 where "st2 = focus (fst (all ! nxt)) (addCurrent (fst (all ! nxt)) st1)"
  note step = readDistance_next [OF all i ne st1_def nxt_def st2_def]
  note unf = normalRead_unfold [OF all i ne st1_def nxt_def st2_def]
  note frame = step_frame [OF st1_def st2_def]
  have ns: "nxt = start" using nxt_def start by simp
  show ?case
  proof (cases "readable (all ! nxt)")
    case True
    have "j = nxt"
    proof (rule ccontr)
      assume "j \<noteq> nxt"
      with ns less.prems(4) have "start \<le> nxt \<and> nxt < j" by simp
      with less.prems(7) True show False by blast
    qed
    moreover have "normalRead st = synth_speak (narration (all ! nxt)) st2"
      using unf True by simp
    ultimately show ?thesis
      using step frame step_only_mark [OF all i ne st1_def nxt_def st2_def]
      by (simp add: synth_speak_def)
  next
    case False
    have rec: "normalRead st = normalRead st2" using unf False by simp
    have jn: "j \<noteq> nxt" using False less.prems(6) by auto
    have all2: "all = getAllElements (document st2)" using step all by simp
    have i2: "nxt = findCurrent (classLists st2) all" using step by simp
    have nl: "nxt \<noteq> length all" using step by simp
    have s2: "Suc nxt = (if nxt = length all then 0 else Suc nxt)" using nl by simp
    have le2: "Suc nxt \<le> j" using jn ns less.prems(4) by simp
    have no2: "\<forall>k. Suc nxt \<le> k \<and> k < j \<longrightarrow> \<not> readable (all ! k)"
      using less.prems(7) ns by simp
    have dec: "readDistance st2 < readDistance st" using step by simp
    note ih = less.hyps [OF dec all2 i2 s2 le2 less.prems(5,6) no2]
    show ?thesis
      using ih rec frame step step_only_mark [OF all i ne st1_def nxt_def st2_def]
      by simp
  qed
qed

lemmas reader_eval =
  readerOn_def el_def leaf_def getAllElements_def
  isCurrent_def classList_contains_def classList_add_def classList_remove_def
  current_sr_elt_def addCurrent_def removeCurrent_def focus_def blur_def synth_speak_def
  speak_def stop_def startsWith_def elementToString_def toLocaleLowerCase_def lowerChar_def
  truthy_def innerText_def SpeechSynth_new_def Let_def

lemma example_first_read:
  "voiceSynth (synth (normalRead exampleReader))
     = [EngineCancel, EngineCancel, EngineSpeak (Utterance ''Header 1: Welcome'' (Fin 1) () ())]"
  by (simp add: normalRead.simps exampleReader_def examplePage_def reader_eval)

lemma example_second_read:
  "voiceSynth (synth (normalRead (normalRead exampleReader)))
     = [EngineCancel, EngineCancel, EngineSpeak (Utterance ''Header 1: Welcome'' (Fin 1) () ()),
        EngineCancel, EngineSpeak (Utterance ''Paragraph: Hello'' (Fin 1) () ())]"
  by (simp add: normalRead.simps exampleReader_def examplePage_def reader_eval)

text \<open>
  Claim C2. Forward reading visits the readable elements in document order and skips
  every element the reader injected and every element without a string: when \<open>j\<close> is
  the first index after the marked element (from the start of the document when no
  element is marked) whose element is readable, \<open>normalRead\<close> narrates exactly that
  element's string, leaves the document as it is and puts the mark on that element, the
  only mark if there was at most the one before. On the page with a header, an injected
  button and a paragraph, two calls from the start narrate the header and then the
  paragraph, and the button never.
\<close>

theorem C2_forward_reading:
  "(all = getAllElements (document st)
      \<and> i = findCurrent (classLists st) all
      \<and> start = (if i = length all then 0 else Suc i)
      \<and> start \<le> j \<and> j < length all
      \<and> readable (all ! j)
      \<and> (\<forall>k. start \<le> k \<and> k < j \<longrightarrow> \<not> readable (all ! k))
    \<longrightarrow> synth (normalRead st) = speak (narration (all ! j)) () () (synth st)
      \<and> document (normalRead st) = document st
      \<and> modeStack (normalRead st) = modeStack st
      \<and> findCurrent (classLists (normalRead st)) all = j
      \<and> (markedOnlyAt (classLists st) all i
           \<longrightarrow> markedOnlyAt (classLists (normalRead st)) all j))
   \<and> voiceSynth (synth (normalRead exampleReader))
       = [EngineCancel, EngineCancel,
          EngineSpeak (Utterance ''Header 1: Welcome'' (Fin 1) () ())]
   \<and> voiceSynth (synth (normalRead (normalRead exampleReader)))
       = [EngineCancel, EngineCancel,
          EngineSpeak (Utterance ''Header 1: Welcome'' (Fin 1) () ()),
          EngineCancel, EngineSpeak (Utterance ''Paragraph: Hello'' (Fin 1) () ())]"
  using normalRead_next_readable [of all st i start j] example_first_read example_second_read
  by blast

theorem C2_forward_reading_witness:
  "length (getAllElements examplePage) = 5
   \<and> findCurrent (classLists exampleReader)
        (getAllElements examplePage) = 5
   \<and> \<not> readable (getAllElements examplePage ! 0)
   \<and> \<not> readable (getAllElements examplePage ! 1)
   \<and> readable (getAllElements examplePage ! 2)
   \<and> \<not> readable (getAllElements examplePage ! 3)
   \<and> readable (getAllElements examplePage ! 4)
   \<and> synth (normalRead exampleReader)
       = speak ''Header 1: Welcome'' () () (synth exampleReader)
   \<and> findCurrent (classLists (normalRead exampleReader))
        (getAllElements examplePage) = 2
   \<and> synth (normalRead (normalRead exampleReader))
       = speak ''Paragraph: Hello'' () () (synth (normalRead exampleReader))
   \<and> findCurrent (classLists (normalRead (normalRead exampleReader)))
        (getAllElements examplePage) = 4"
proof -
  let ?st = "exampleReader"
  let ?all = "getAllElements examplePage"
  have doc: "document ?st = examplePage" by (simp add: exampleReader_def readerOn_def)
  have len: "length ?all = 5" by (simp add: examplePage_def reader_eval)
  have cur: "findCurrent (classLists ?st) ?all = 5"
    by (simp add: exampleReader_def examplePage_def reader_eval)
  have r: "\<not> readable (?all ! 0)" "\<not> readable (?all ! 1)" "readable (?all ! 2)"
    "\<not> readable (?all ! 3)" "readable (?all ! 4)"
    by (simp_all add: readable_def examplePage_def reader_eval)
  have n: "narration (?all ! 2) = ''Header 1: Welcome''" "narration (?all ! 4) = ''Paragraph: Hello''"
    by (simp_all add: narration_def examplePage_def reader_eval)
  have k2: "\<forall>k. 0 \<le> k \<and> k < 2 \<longrightarrow> \<not> readable (?all ! k)"
    using r by (auto simp: less_2_cases_iff)
  have k4: "\<forall>k. 3 \<le> k \<and> k < 4 \<longrightarrow> \<not> readable (?all ! k)"
  proof (intro allI impI)
    fix k :: nat assume "3 \<le> k \<and> k < 4"
    then have "k = 3" by simp
    with r show "\<not> readable (?all ! k)" by simp
  qed
  have s1: "synth (normalRead ?st) = speak (narration (?all ! 2)) () () (synth ?st)
      \<and> document (normalRead ?st) = document ?st
      \<and> findCurrent (classLists (normalRead ?st)) ?all = 2"
    using C2_forward_reading [of ?all ?st 5 0 2] doc len cur r k2 by simp
  then have s2: "synth (normalRead (normalRead ?st))
        = speak (narration (?all ! 4)) () () (synth (normalRead ?st))
      \<and> findCurrent (classLists (normalRead (normalRead ?st))) ?all = 4"
    using C2_forward_reading [of ?all "normalRead ?st" 2 3 4] doc len r k4 by simp
  have t1: "synth (normalRead ?st) = speak ''Header 1: Welcome'' () () (synth ?st)"
    using s1 n by simp
  have t2: "synth (normalRead (normalRead ?st))
        = speak ''Paragraph: Hello'' () () (synth (normalRead ?st))"
    using s2 n by simp
  have c1: "findCurrent (classLists (normalRead ?st)) ?all = 2" using s1 by simp
  have c2: "findCurrent (classLists (normalRead (normalRead ?st))) ?all = 4" using s2 by simp
  show ?thesis
    by (intro conjI) (rule len cur r t1 c1 t2 c2)+
qed

section \<open>The string of an image\<close>

lemma elementToString_img:
  "elementToString (Node (e\<lparr>tagName := ''IMG''\<rparr>) ks)
     = Some (''with description '' @ img_alt e)"
  by (simp add: elementToString_def toLocaleLowerCase_def lowerChar_def truthy_def img_alt_def)

text \<open>
  Claim C3 says that the string of an image begins with \<open>"Here is an image"\<close>, followed
  by the description when the \<open>alt\<close> attribute is present and by a note that there is
  none when it is absent. The code does not do so: the condition of its conditional is
  the concatenation \<open>"Here is an image " + hasAttribute\<close>, a string that is never
  empty, so the result is always \<open>"with description "\<close> followed by \<open>img.alt\<close>. The
  theorem evaluates \<open>elementToString\<close> on an image with the description \<open>a cat\<close> and
  on an image with no \<open>alt\<close> attribute.
\<close>

theorem C3_image_string:
  "elementToString
     (Node \<lparr>tagName = ''IMG'', elem_id = [], innerText_attr = [], innerHTML = [],
            altAttribute = Some ''a cat''\<rparr> []) = Some ''with description a cat''
   \<and> elementToString
     (Node \<lparr>tagName = ''IMG'', elem_id = [], innerText_attr = [], innerHTML = [],
            altAttribute = None\<rparr> []) = Some ''with description ''
   \<and> \<not> startsWith ''with description a cat'' ''Here is an image''
   \<and> \<not> startsWith ''with description '' ''Here is an image''"
  by (simp add: elementToString_def toLocaleLowerCase_def lowerChar_def truthy_def img_alt_def
      startsWith_def)

section \<open>Entering table mode\<close>

lemma nodeAt_append: "nodeAt d p = Some n \<Longrightarrow> nodeAt d (p @ q) = nodeAt n q"
  by (induction p arbitrary: d) (auto split: if_splits)

lemma allNodes_nodeAt:
  "((p, n) \<in> set (allNodes d)) = (nodeAt d p = Some n)"
  "((p, n) \<in> set (allNodesKids i ks))
     = (\<exists>j p'. p = (i + j) # p' \<and> j < length ks \<and> nodeAt (ks ! j) p' = Some n)"
proof (induction d and i ks arbitrary: p and p rule: allNodes_allNodesKids.induct)
  case (1 e ks)
  show ?case
  proof (cases p)
    case Nil
    then show ?thesis using 1 [of p] by auto
  next
    case (Cons a p')
    then show ?thesis using 1 [of p] by auto
  qed
next
  case (2 i)
  then show ?case by simp
next
  case (3 i k ks)
  have a: "((p, n) \<in> set (map (\<lambda>(p, n). (i # p, n)) (allNodes k)))
            = (\<exists>p'. p = i # p' \<and> nodeAt k p' = Some n)"
    using 3(1) by force
  have b: "(\<exists>j p'. p = (i + j) # p' \<and> j < length (k # ks) \<and> nodeAt ((k # ks) ! j) p' = Some n)
       = ((\<exists>p'. p = i # p' \<and> nodeAt k p' = Some n)
          \<or> (\<exists>j p'. p = (Suc i + j) # p' \<and> j < length ks \<and> nodeAt (ks ! j) p' = Some n))"
  proof
    assume "\<exists>j p'. p = (i + j) # p' \<and> j < length (k # ks) \<and> nodeAt ((k # ks) ! j) p' = Some n"
    then obtain j p' where j: "p = (i + j) # p'" "j < length (k # ks)"
      "nodeAt ((k # ks) ! j) p' = Some n" by blast
    show "(\<exists>p'. p = i # p' \<and> nodeAt k p' = Some n)
          \<or> (\<exists>j p'. p = (Suc i + j) # p' \<and> j < length ks \<and> nodeAt (ks ! j) p' = Some n)"
    proof (cases j)
      case 0
      with j show ?thesis by simp
    next
      case (Suc j')
      with j have "p = (Suc i + j') # p' \<and> j' < length ks \<and> nodeAt (ks ! j') p' = Some n"
        by simp
      then show ?thesis by blast
    qed
  next
    assume "(\<exists>p'. p = i # p' \<and> nodeAt k p' = Some n)
          \<or> (\<exists>j p'. p = (Suc i + j) # p' \<and> j < length ks \<and> nodeAt (ks ! j) p' = Some n)"
    then show "\<exists>j p'. p = (i + j) # p' \<and> j < length (k # ks) \<and> nodeAt ((k # ks) ! j) p' = Some n"
    proof
      assume "\<exists>p'. p = i # p' \<and> nodeAt k p' = Some n"
      then obtain p' where "p = (i + 0) # p' \<and> 0 < length (k # ks) \<and> nodeAt ((k # ks) ! 0) p' = Some n"
        by auto
      then show ?thesis by blast
    next
      assume "\<exists>j p'. p = (Suc i + j) # p' \<and> j < length ks \<and> nodeAt (ks ! j) p' = Some n"
      then obtain j p' where "p = (i + Suc j) # p' \<and> Suc j < length (k # ks)
          \<and> nodeAt ((k # ks) ! Suc j) p' = Some n"
        by auto
      then show ?thesis by blast
    qed
  qed
  show ?case using a b 3(2) [of p] by simp
qed

lemma descendantsOf_nodeAt:
  assumes "(q, m) \<in> set (descendantsOf d p)"
  shows "nodeAt d q = Some m"
proof -
  from assms obtain n where n: "nodeAt d p = Some n"
    by (cases "nodeAt d p") (auto simp: descendantsOf_def)
  with assms obtain q' where q': "q = p @ q'" "(q', m) \<in> set (tl (allNodes n))"
    by (auto simp: descendantsOf_def)
  then have "(q', m) \<in> set (allNodes n)" by (cases "allNodes n") auto
  then have "nodeAt n q' = Some m" by (simp add: allNodes_nodeAt(1))
  with n q' show ?thesis by (simp add: nodeAt_append)
qed

lemma properDescendant_Nil: "properDescendant [] q = (q \<noteq> [])"
  by (simp add: properDescendant_def)

lemma properDescendant_Cons: "properDescendant (i # p) (j # q) = (i = j \<and> properDescendant p q)"
  by (auto simp: properDescendant_def)

lemma replaceKids_keeps_props:
  "nodeAt d q = Some n \<Longrightarrow> \<not> properDescendant sr q \<Longrightarrow>
   \<exists>n'. nodeAt (replaceKids sr new d) q = Some n' \<and> props n' = props n"
proof (induction sr new d arbitrary: q rule: replaceKids.induct)
  case (1 new e ks)
  then show ?case by (cases q) (auto simp: properDescendant_Nil)
next
  case (2 i p new e ks)
  show ?case
  proof (cases q)
    case Nil
    with "2.prems" show ?thesis by auto
  next
    case (Cons j q')
    from "2.prems"(1) Cons have j: "j < length ks" "nodeAt (ks ! j) q' = Some n"
      by (auto split: if_splits)
    show ?thesis
    proof (cases "i < length ks \<and> j = i")
      case True
      with "2.prems"(2) Cons have "\<not> properDescendant p q'"
        by (simp add: properDescendant_Cons)
      from "2.IH" [OF _ _ this] True j
      obtain n' where "nodeAt (replaceKids p new (ks ! i)) q' = Some n' \<and> props n' = props n"
        by blast
      with True Cons show ?thesis by simp
    next
      case False
      with j Cons show ?thesis by auto
    qed
  qed
qed

lemma findCurrent_onlyMarked:
  assumes d: "distinct (map fst xs)" and m: "onlyMarked cls p" and x: "(p, n) \<in> set xs"
  shows "findCurrent cls xs < length xs \<and> xs ! findCurrent cls xs = (p, n)"
proof -
  from x obtain k where k: "k < length xs" "xs ! k = (p, n)" by (auto simp: in_set_conv_nth)
  have cur: "isCurrent cls (xs ! k)" using m k by (simp add: isCurrent_def onlyMarked_def)
  have "\<not> isCurrent cls (xs ! j)" if "j < k" for j
  proof
    assume "isCurrent cls (xs ! j)"
    then have "fst (xs ! j) = p" using m by (simp add: isCurrent_def onlyMarked_def)
    then have "j = k"
      using nth_eq_iff_index_eq [OF d, of j k] k that by simp
    with that show False by simp
  qed
  then have "findCurrent cls xs = k" using k cur by (intro findCurrent_eq) auto
  with k show ?thesis by simp
qed

lemma refusedWith_speak:
  "refusedWith msg st (synth_speak msg st)"
  "refusedWith msg st (synth_speak msg (st\<lparr>synth := stop (synth st)\<rparr>))"
  by (simp_all add: refusedWith_def synth_speak_def speak_def stop_def engineQueue_def Let_def)

lemma normal_t_not_table:
  assumes "all = getAllElements (document st)" "i = findCurrent (classLists st) all"
    and "i = length all \<or> tagName (props (snd (all ! i))) \<noteq> ''TABLE''"
  shows "normal_t st
     = Returned (synth_speak ''You are currently not hovering over a table element.'' st)"
  using assms by (auto simp: normal_t_def Let_def)

lemma normal_t_no_rows:
  assumes "all = getAllElements (document st)" "i = findCurrent (classLists st) all"
    and "i \<noteq> length all" "tagName (props (snd (all ! i))) = ''TABLE''"
    and "getElementsByTagName (document st) (fst (all ! i)) ''tr'' = []"
  shows "normal_t st
     = Returned (synth_speak ''This table has no rows.'' (st\<lparr>synth := stop (synth st)\<rparr>))"
  using assms by (simp add: normal_t_def Let_def)

lemma normal_t_no_cols:
  assumes "all = getAllElements (document st)" "i = findCurrent (classLists st) all"
    and "i \<noteq> length all" "tagName (props (snd (all ! i))) = ''TABLE''"
    and "rows = getElementsByTagName (document st) (fst (all ! i)) ''tr''" "rows \<noteq> []"
    and "querySelectorAll_th_td (document st) (fst (rows ! 0)) = []"
  shows "normal_t st
     = Returned (synth_speak ''This table has no columns.'' (st\<lparr>synth := stop (synth st)\<rparr>))"
  using assms by (simp add: normal_t_def Let_def)

lemma readCell_onlyMarked:
  assumes m: "onlyMarked (classLists st) p" and x: "nodeAt (document st) p = Some n"
  shows "readCell st = synth_speak (cellText n) st"
proof -
  let ?all = "getAllElements (document st)"
  have d: "distinct (map fst ?all)" by (simp add: getAllElements_def allNodes_refs(1))
  have "(p, n) \<in> set ?all" using x by (simp add: getAllElements_def allNodes_nodeAt(1))
  from findCurrent_onlyMarked [OF d m this]
  have "findCurrent (classLists st) ?all < length ?all"
    "?all ! findCurrent (classLists st) ?all = (p, n)" by simp_all
  then show ?thesis
    by (simp add: readCell_def Let_def cellText_def)
qed

lemma cellText_props: "props n' = props n \<Longrightarrow> cellText n' = cellText n"
  by (simp add: cellText_def innerText_def)

lemma normal_t_enters:
  assumes all: "all = getAllElements (document st)" and i: "i = findCurrent (classLists st) all"
    and il: "i \<noteq> length all" and tag: "tagName (props (snd (all ! i))) = ''TABLE''"
    and rows: "rows = getElementsByTagName (document st) (fst (all ! i)) ''tr''" "rows \<noteq> []"
    and cols: "cols = querySelectorAll_th_td (document st) (fst (rows ! 0))" "cols \<noteq> []"
    and only: "onlyMarked (classLists st) (fst (all ! i))"
    and sr: "getElementById (document st) ''screenReader'' = Some sr"
    and out: "\<not> properDescendant (fst sr) (fst (cols ! 0))"
    and kb: "getAllKeybinds (keybinds st) TABLE = Some modeKeys"
  shows "\<exists>st'. normal_t st = Returned st'
     \<and> modeStack st' = modeStack st @ [TABLE]
     \<and> mode (modeStack st') = Some TABLE
     \<and> onlyMarked (classLists st') (fst (cols ! 0))
     \<and> synth st' = speak (cellText (snd (cols ! 0))) () () (stop (synth st))"
proof -
  let ?t = "fst (all ! i)"
  let ?c = "fst (cols ! 0)"
  define st1 where "st1 = st\<lparr>synth := stop (synth st)\<rparr>"
  define st3 where "st3 = addCurrent ?c (blur ?t (removeCurrent ?t st1))"
  define st4 where "st4 = st3\<lparr>modeStack := modeStack st3 @ [TABLE],
      document := replaceKids (fst sr) (controlNodes TABLE modeKeys) (document st),
      classLists := (\<lambda>q. if properDescendant (fst sr) q then [] else classLists st3 q)\<rparr>"
  have doc3: "document st3 = document st" "keybinds st3 = keybinds st"
    "modeStack st3 = modeStack st" "synth st3 = stop (synth st)"
    by (simp_all add: st3_def st1_def addCurrent_def blur_def removeCurrent_def)
  have push: "pushMode_sr TABLE st3 = Returned st4"
    using sr kb doc3
    by (simp add: pushMode_sr_def renderControls_def pushMode_def mode_def st4_def cong: if_cong)
  have unf: "normal_t st = Returned (readCell st4)"
    using all i il tag rows cols push
    by (simp add: normal_t_def Let_def st3_def st1_def)
  have m3: "onlyMarked (classLists st3) ?c"
    using only
    by (auto simp: onlyMarked_def st3_def st1_def addCurrent_def blur_def removeCurrent_def
        add_contains remove_contains)
  have m4: "onlyMarked (classLists st4) ?c"
    using m3 out
    by (auto simp: onlyMarked_def st4_def classList_contains_def)
  have "cols ! 0 \<in> set cols" using cols(2) by (cases cols) auto
  then have "(fst (cols ! 0), snd (cols ! 0)) \<in> set (descendantsOf (document st) (fst (rows ! 0)))"
    using cols(1) by (simp add: querySelectorAll_th_td_def)
  then have at: "nodeAt (document st) ?c = Some (snd (cols ! 0))"
    by (rule descendantsOf_nodeAt)
  from replaceKids_keeps_props [OF at out, of "controlNodes TABLE modeKeys"]
  obtain n' where n': "nodeAt (document st4) ?c = Some n'" "props n' = props (snd (cols ! 0))"
    by (auto simp: st4_def)
  have "readCell st4 = synth_speak (cellText (snd (cols ! 0))) st4"
    using readCell_onlyMarked [OF m4 n'(1)] cellText_props [OF n'(2)] by simp
  with unf m4 doc3 show ?thesis
    by (simp add: synth_speak_def st4_def mode_def)
qed

lemma normal_t_pushes_only_on_cells:
  assumes all: "all = getAllElements (document st)" and i: "i = findCurrent (classLists st) all"
    and rows: "rows = getElementsByTagName (document st) (fst (all ! i)) ''tr''"
    and cols: "cols = querySelectorAll_th_td (document st) (fst (rows ! 0))"
    and ch: "modeStack (stateOf (normal_t st)) \<noteq> modeStack st"
  shows "i \<noteq> length all \<and> tagName (props (snd (all ! i))) = ''TABLE'' \<and> rows \<noteq> [] \<and> cols \<noteq> []"
proof -
  have a: "\<not> (i = length all \<or> tagName (props (snd (all ! i))) \<noteq> ''TABLE'')"
  proof
    assume "i = length all \<or> tagName (props (snd (all ! i))) \<noteq> ''TABLE''"
    from normal_t_not_table [OF all i this] ch show False by (simp add: synth_speak_def)
  qed
  then have a': "i \<noteq> length all" "tagName (props (snd (all ! i))) = ''TABLE''" by simp_all
  have b: "rows \<noteq> []"
  proof
    assume "rows = []"
    then have "getElementsByTagName (document st) (fst (all ! i)) ''tr'' = []" using rows by simp
    from normal_t_no_rows [OF all i a' this] ch show False by (simp add: synth_speak_def)
  qed
  have c: "cols \<noteq> []"
  proof
    assume "cols = []"
    then have "querySelectorAll_th_td (document st) (fst (rows ! 0)) = []" using cols by simp
    from normal_t_no_cols [OF all i a' rows b this] ch show False by (simp add: synth_speak_def)
  qed
  from a' b c show ?thesis by simp
qed

lemmas entry_eval =
  readerAt_def pageWith_def getElementsByTagName_def querySelectorAll_th_td_def
  descendantsOf_def getElementById_def getAllKeybinds_def Keybinds_new_index onlyMarked_def
  properDescendant_def

text \<open>
  Claim C5. The key \<open>t\<close> enters table mode only from a table with a cell in its first
  row. When no element is marked or the marked element is not a table, when the table
  has no row, and when its first row has no header or data cell, the handler narrates
  the message of that case and returns with the mode stack, and so \<open>mode()\<close>, as
  before. When the first row has a cell (and the controls can be rendered: the container
  \<open>screenReader\<close> exists outside the cell and TABLE has its keybind map), TABLE is
  pushed, the mark moves from the table to the first cell of the first row, and that
  cell is read. Whenever the handler changes the mode stack, the table has a row and
  its first row a cell.
\<close>

theorem C5_table_entry:
  "all = getAllElements (document st) \<and> i = findCurrent (classLists st) all
     \<and> rows = getElementsByTagName (document st) (fst (all ! i)) ''tr''
     \<and> cols = querySelectorAll_th_td (document st) (fst (rows ! 0))
   \<longrightarrow>
     (i = length all \<or> tagName (props (snd (all ! i))) \<noteq> ''TABLE''
        \<longrightarrow> (\<exists>st'. normal_t st = Returned st'
              \<and> refusedWith ''You are currently not hovering over a table element.'' st st'))
   \<and> (i \<noteq> length all \<and> tagName (props (snd (all ! i))) = ''TABLE'' \<and> rows = []
        \<longrightarrow> (\<exists>st'. normal_t st = Returned st'
              \<and> refusedWith ''This table has no rows.'' st st'))
   \<and> (i \<noteq> length all \<and> tagName (props (snd (all ! i))) = ''TABLE'' \<and> rows \<noteq> [] \<and> cols = []
        \<longrightarrow> (\<exists>st'. normal_t st = Returned st'
              \<and> refusedWith ''This table has no columns.'' st st'))
   \<and> (i \<noteq> length all \<and> tagName (props (snd (all ! i))) = ''TABLE'' \<and> rows \<noteq> [] \<and> cols \<noteq> []
        \<and> onlyMarked (classLists st) (fst (all ! i))
        \<and> getElementById (document st) ''screenReader'' = Some sr
        \<and> \<not> properDescendant (fst sr) (fst (cols ! 0))
        \<and> getAllKeybinds (keybinds st) TABLE = Some modeKeys
        \<longrightarrow> (\<exists>st'. normal_t st = Returned st'
              \<and> modeStack st' = modeStack st @ [TABLE]
              \<and> mode (modeStack st') = Some TABLE
              \<and> onlyMarked (classLists st') (fst (cols ! 0))
              \<and> synth st' = speak (cellText (snd (cols ! 0))) () () (stop (synth st))))
   \<and> (modeStack (stateOf (normal_t st)) \<noteq> modeStack st
        \<longrightarrow> i \<noteq> length all \<and> tagName (props (snd (all ! i))) = ''TABLE''
            \<and> rows \<noteq> [] \<and> cols \<noteq> [])"
proof (intro impI)
  assume "all = getAllElements (document st) \<and> i = findCurrent (classLists st) all
     \<and> rows = getElementsByTagName (document st) (fst (all ! i)) ''tr''
     \<and> cols = querySelectorAll_th_td (document st) (fst (rows ! 0))"
  then have all: "all = getAllElements (document st)"
    and i: "i = findCurrent (classLists st) all"
    and rows: "rows = getElementsByTagName (document st) (fst (all ! i)) ''tr''"
    and cols: "cols = querySelectorAll_th_td (document st) (fst (rows ! 0))"
    by simp_all
  have c1: "i = length all \<or> tagName (props (snd (all ! i))) \<noteq> ''TABLE''
        \<longrightarrow> (\<exists>st'. normal_t st = Returned st'
              \<and> refusedWith ''You are currently not hovering over a table element.'' st st')"
    using normal_t_not_table [OF all i] by (simp add: refusedWith_speak)
  have c2: "i \<noteq> length all \<and> tagName (props (snd (all ! i))) = ''TABLE'' \<and> rows = []
        \<longrightarrow> (\<exists>st'. normal_t st = Returned st'
              \<and> refusedWith ''This table has no rows.'' st st')"
    using normal_t_no_rows [OF all i] rows by (simp add: refusedWith_speak)
  have c3: "i \<noteq> length all \<and> tagName (props (snd (all ! i))) = ''TABLE''
        \<and> rows \<noteq> [] \<and> cols = []
        \<longrightarrow> (\<exists>st'. normal_t st = Returned st'
              \<and> refusedWith ''This table has no columns.'' st st')"
    using normal_t_no_cols [OF all i _ _ rows] cols by (simp add: refusedWith_speak)
  have c4: "i \<noteq> length all \<and> tagName (props (snd (all ! i))) = ''TABLE''
        \<and> rows \<noteq> [] \<and> cols \<noteq> []
        \<and> onlyMarked (classLists st) (fst (all ! i))
        \<and> getElementById (document st) ''screenReader'' = Some sr
        \<and> \<not> properDescendant (fst sr) (fst (cols ! 0))
        \<and> getAllKeybinds (keybinds st) TABLE = Some modeKeys
        \<longrightarrow> (\<exists>st'. normal_t st = Returned st'
              \<and> modeStack st' = modeStack st @ [TABLE]
              \<and> mode (modeStack st') = Some TABLE
              \<and> onlyMarked (classLists st') (fst (cols ! 0))
              \<and> synth st' = speak (cellText (snd (cols ! 0))) () () (stop (synth st)))"
    using normal_t_enters [OF all i _ _ rows _ cols] by blast
  have c5: "modeStack (stateOf (normal_t st)) \<noteq> modeStack st
        \<longrightarrow> i \<noteq> length all \<and> tagName (props (snd (all ! i))) = ''TABLE''
            \<and> rows \<noteq> [] \<and> cols \<noteq> []"
    using normal_t_pushes_only_on_cells [OF all i rows cols] by blast
  show "(i = length all \<or> tagName (props (snd (all ! i))) \<noteq> ''TABLE''
        \<longrightarrow> (\<exists>st'. normal_t st = Returned st'
              \<and> refusedWith ''You are currently not hovering over a table element.'' st st'))
   \<and> (i \<noteq> length all \<and> tagName (props (snd (all ! i))) = ''TABLE'' \<and> rows = []
        \<longrightarrow> (\<exists>st'. normal_t st = Returned st'
              \<and> refusedWith ''This table has no rows.'' st st'))
   \<and> (i \<noteq> length all \<and> tagName (props (snd (all ! i))) = ''TABLE'' \<and> rows \<noteq> [] \<and> cols = []
        \<longrightarrow> (\<exists>st'. normal_t st = Returned st'
              \<and> refusedWith ''This table has no columns.'' st st'))
   \<and> (i \<noteq> length all \<and> tagName (props (snd (all ! i))) = ''TABLE'' \<and> rows \<noteq> [] \<and> cols \<noteq> []
        \<and> onlyMarked (classLists st) (fst (all ! i))
        \<and> getElementById (document st) ''screenReader'' = Some sr
        \<and> \<not> properDescendant (fst sr) (fst (cols ! 0))
        \<and> getAllKeybinds (keybinds st) TABLE = Some modeKeys
        \<longrightarrow> (\<exists>st'. normal_t st = Returned st'
              \<and> modeStack st' = modeStack st @ [TABLE]
              \<and> mode (modeStack st') = Some TABLE
              \<and> onlyMarked (classLists st') (fst (cols ! 0))
              \<and> synth st' = speak (cellText (snd (cols ! 0))) () () (stop (synth st))))
   \<and> (modeStack (stateOf (normal_t st)) \<noteq> modeStack st
        \<longrightarrow> i \<noteq> length all \<and> tagName (props (snd (all ! i))) = ''TABLE''
            \<and> rows \<noteq> [] \<and> cols \<noteq> [])"
    by (intro conjI) (rule c1 c2 c3 c4 c5)+
qed

theorem C5_table_entry_witness:
  "(\<exists>st'. normal_t onParagraph = Returned st'
      \<and> refusedWith ''You are currently not hovering over a table element.'' onParagraph st')
   \<and> (\<exists>st'. normal_t onEmptyTable = Returned st'
      \<and> refusedWith ''This table has no rows.'' onEmptyTable st')
   \<and> (\<exists>st'. normal_t onTableOfEmptyRow = Returned st'
      \<and> refusedWith ''This table has no columns.'' onTableOfEmptyRow st')
   \<and> (\<exists>st'. normal_t onTableOfCells = Returned st'
      \<and> modeStack st' = [NORMAL, TABLE]
      \<and> mode (modeStack st') = Some TABLE
      \<and> onlyMarked (classLists st') [0, 1, 0, 0]
      \<and> synth st' = speak ''Column header: Name'' () () (stop (synth onTableOfCells)))"
proof -
  let ?all = "\<lambda>st :: unit screenreader. getAllElements (document st)"
  let ?i = "\<lambda>st :: unit screenreader. findCurrent (classLists st) (?all st)"
  let ?rows = "\<lambda>st :: unit screenreader.
     getElementsByTagName (document st) (fst (?all st ! ?i st)) ''tr''"
  let ?cols = "\<lambda>st :: unit screenreader.
     querySelectorAll_th_td (document st) (fst (?rows st ! 0))"
  have p: "?i onParagraph = 3" "length (?all onParagraph) = 4"
    "tagName (props (snd (?all onParagraph ! 3))) = ''P''"
    by (simp_all add: onParagraph_def entry_eval reader_eval)
  have w1: "\<exists>st'. normal_t onParagraph = Returned st'
      \<and> refusedWith ''You are currently not hovering over a table element.'' onParagraph st'"
    using C5_table_entry [of "?all onParagraph" onParagraph "?i onParagraph"
        "?rows onParagraph" "?cols onParagraph"] p
    by simp
  have e: "?i onEmptyTable = 3" "length (?all onEmptyTable) = 4"
    "tagName (props (snd (?all onEmptyTable ! 3))) = ''TABLE''"
    "?rows onEmptyTable = []"
    by (simp_all add: onEmptyTable_def entry_eval reader_eval)
  have w2: "\<exists>st'. normal_t onEmptyTable = Returned st'
      \<and> refusedWith ''This table has no rows.'' onEmptyTable st'"
    using C5_table_entry [of "?all onEmptyTable" onEmptyTable "?i onEmptyTable"
        "?rows onEmptyTable" "?cols onEmptyTable"] e
    by simp
  have r: "?i onTableOfEmptyRow = 3" "length (?all onTableOfEmptyRow) = 5"
    "tagName (props (snd (?all onTableOfEmptyRow ! 3))) = ''TABLE''"
    "?rows onTableOfEmptyRow \<noteq> []" "?cols onTableOfEmptyRow = []"
    by (simp_all add: onTableOfEmptyRow_def entry_eval reader_eval)
  have w3: "\<exists>st'. normal_t onTableOfEmptyRow = Returned st'
      \<and> refusedWith ''This table has no columns.'' onTableOfEmptyRow st'"
    using C5_table_entry [of "?all onTableOfEmptyRow" onTableOfEmptyRow "?i onTableOfEmptyRow"
        "?rows onTableOfEmptyRow" "?cols onTableOfEmptyRow"] r
    by simp
  have c: "?i onTableOfCells = 3" "length (?all onTableOfCells) = 10"
    "tagName (props (snd (?all onTableOfCells ! 3))) = ''TABLE''"
    "fst (?all onTableOfCells ! 3) = [0, 1]"
    "?rows onTableOfCells \<noteq> []" "?cols onTableOfCells \<noteq> []"
    "?cols onTableOfCells ! 0 = ([0, 1, 0, 0], leaf ''TH'' [] ''Name'')"
    by (simp_all add: onTableOfCells_def entry_eval reader_eval)
  have c': "onlyMarked (classLists onTableOfCells) [0, 1]"
    "getElementById (document onTableOfCells) ''screenReader''
       = Some ([0, 0], Node \<lparr>tagName = ''DIV'', elem_id = ''screenReader'',
           innerText_attr = [], innerHTML = [], altAttribute = None\<rparr> [])"
    "\<not> properDescendant [0, 0] [0, 1, 0, 0]"
    "getAllKeybinds (keybinds onTableOfCells) TABLE = Some emptyObject"
    "modeStack onTableOfCells = [NORMAL]"
    "cellText (leaf ''TH'' [] ''Name'') = ''Column header: Name''"
    by (simp_all add: onTableOfCells_def entry_eval reader_eval cellText_def)
  have w4: "\<exists>st'. normal_t onTableOfCells = Returned st'
      \<and> modeStack st' = [NORMAL, TABLE]
      \<and> mode (modeStack st') = Some TABLE
      \<and> onlyMarked (classLists st') [0, 1, 0, 0]
      \<and> synth st' = speak ''Column header: Name'' () () (stop (synth onTableOfCells))"
    using C5_table_entry [of "?all onTableOfCells" onTableOfCells "?i onTableOfCells"
        "?rows onTableOfCells" "?cols onTableOfCells"
        "([0, 0], Node \<lparr>tagName = ''DIV'', elem_id = ''screenReader'',
           innerText_attr = [], innerHTML = [], altAttribute = None\<rparr> [])" emptyObject] c c'
    by simp
  show ?thesis
    by (intro conjI) (rule w1 w2 w3 w4)+
qed

section \<open>Moving between the rows of a table\<close>

lemma indexOf_bounds: "- 1 \<le> indexOf xs p \<and> indexOf xs p < int (length xs)"
  by (induction xs) (auto simp: Let_def)

lemma at_index_nth: "0 \<le> k \<Longrightarrow> k < int (length xs) \<Longrightarrow> at_index xs k = Some (xs ! nat k)"
  by (simp add: at_index_def)

lemma query_nodeAt:
  "x \<in> set (querySelectorAll_th_td d p) \<Longrightarrow> nodeAt d (fst x) = Some (snd x)"
  using descendantsOf_nodeAt [of "fst x" "snd x" d p]
  by (simp add: querySelectorAll_th_td_def)

lemma moveToCell_reads:
  assumes m: "onlyMarked (classLists st) prevNode"
    and x: "nodeAt (document st) (fst nxt) = Some (snd nxt)"
  shows "\<exists>st'. moveToCell prevNode (Some nxt) st = Returned st'
     \<and> onlyMarked (classLists st') (fst nxt)
     \<and> synth st' = speak (cellText (snd nxt)) () () (synth st)
     \<and> document st' = document st \<and> modeStack st' = modeStack st"
proof -
  define st2 where "st2 = addCurrent (fst nxt) (focus (fst nxt) (removeCurrent prevNode (blur prevNode st)))"
  have fr: "document st2 = document st" "synth st2 = synth st" "modeStack st2 = modeStack st"
    by (simp_all add: st2_def addCurrent_def focus_def removeCurrent_def blur_def)
  have m2: "onlyMarked (classLists st2) (fst nxt)"
    using m
    by (auto simp: onlyMarked_def st2_def addCurrent_def focus_def removeCurrent_def blur_def
        add_contains remove_contains)
  have "readCell st2 = synth_speak (cellText (snd nxt)) st2"
    using readCell_onlyMarked [OF m2] x fr by simp
  moreover have "moveToCell prevNode (Some nxt) st = Returned (readCell st2)"
    by (simp add: moveToCell_def st2_def Let_def)
  ultimately show ?thesis using m2 fr by (simp add: synth_speak_def)
qed

lemma table_ArrowDown_moves:
  assumes pos: "cellPosition st prevNode rows r c"
    and adj: "r \<noteq> int (length rows) - 1"
    and ne: "cellsOf st (rows ! nat (r + 1)) \<noteq> []"
    and nxt: "nxt = cellsOf st (rows ! nat (r + 1))
                ! nat (min c (int (length (cellsOf st (rows ! nat (r + 1)))) - 1))"
  shows "\<exists>st'. table_ArrowDown st = Returned st'
     \<and> onlyMarked (classLists st') (fst nxt)
     \<and> synth st' = speak (cellText (snd nxt)) () () (synth st)
     \<and> document st' = document st \<and> modeStack st' = modeStack st"
proof -
  let ?below = "cellsOf st (rows ! nat (r + 1))"
  from pos obtain parent tableElt where
    i: "findCurrent (classLists st) (getAllElements (document st))
          \<noteq> length (getAllElements (document st))"
    and prev: "prevNode = fst (getAllElements (document st)
          ! findCurrent (classLists st) (getAllElements (document st)))"
    and only: "onlyMarked (classLists st) prevNode"
    and par: "parentElement prevNode = Some parent"
    and c: "c = indexOf (querySelectorAll_th_td (document st) parent) prevNode"
    and tbl: "findTableElt (document st) prevNode = Some tableElt"
    and rows: "rows = getElementsByTagName (document st) tableElt ''tr''"
    and r: "r = indexOf rows parent" and r0: "0 \<le> r" and c0: "0 \<le> c"
    by (auto simp: cellPosition_def Let_def split: option.splits)
  have rl: "r + 1 < int (length rows)"
    using indexOf_bounds [of rows parent] r adj by simp
  have row: "at_index rows (r + 1) = Some (rows ! nat (r + 1))"
    using r0 rl by (simp add: at_index_nth)
  have k: "0 \<le> min c (int (length ?below) - 1)" "min c (int (length ?below) - 1) < int (length ?below)"
    using ne c0 by (auto simp: min_def)
  have cell: "at_index ?below (min c (int (length ?below) - 1)) = Some nxt"
    using k nxt by (simp add: at_index_nth)
  have "nat (min c (int (length ?below) - 1)) < length ?below" using k by linarith
  then have "nxt \<in> set ?below" using nxt by simp
  then have at: "nodeAt (document st) (fst nxt) = Some (snd nxt)"
    by (simp add: cellsOf_def query_nodeAt)
  have "table_ArrowDown st = moveToCell prevNode (Some nxt) st"
    using i prev [symmetric] par c [symmetric] tbl rows [symmetric] r [symmetric] adj row cell
    by (simp add: table_ArrowDown_def Let_def cellsOf_def)
  with moveToCell_reads [OF only at] show ?thesis by simp
qed

lemma table_ArrowDown_last_row:
  assumes pos: "cellPosition st prevNode rows r c"
    and last: "r = int (length rows) - 1"
  shows "table_ArrowDown st
     = Returned (synth_speak ''There are no more rows below this one.'' st)"
  using assms
  by (auto simp: cellPosition_def table_ArrowDown_def Let_def split: option.splits)

lemma table_ArrowUp_moves:
  assumes pos: "cellPosition st prevNode rows r c"
    and adj: "r \<noteq> 0"
    and ne: "cellsOf st (rows ! nat (r - 1)) \<noteq> []"
    and nxt: "nxt = cellsOf st (rows ! nat (r - 1))
                ! nat (min c (int (length (cellsOf st (rows ! nat (r - 1)))) - 1))"
  shows "\<exists>st'. table_ArrowUp st = Returned st'
     \<and> onlyMarked (classLists st') (fst nxt)
     \<and> synth st' = speak (cellText (snd nxt)) () () (synth st)
     \<and> document st' = document st \<and> modeStack st' = modeStack st"
proof -
  let ?above = "cellsOf st (rows ! nat (r - 1))"
  from pos obtain parent tableElt where
    i: "findCurrent (classLists st) (getAllElements (document st))
          \<noteq> length (getAllElements (document st))"
    and prev: "prevNode = fst (getAllElements (document st)
          ! findCurrent (classLists st) (getAllElements (document st)))"
    and only: "onlyMarked (classLists st) prevNode"
    and par: "parentElement prevNode = Some parent"
    and c: "c = indexOf (querySelectorAll_th_td (document st) parent) prevNode"
    and tbl: "findTableElt (document st) prevNode = Some tableElt"
    and rows: "rows = getElementsByTagName (document st) tableElt ''tr''"
    and r: "r = indexOf rows parent" and r0: "0 \<le> r" and c0: "0 \<le> c"
    by (auto simp: cellPosition_def Let_def split: option.splits)
  have rl: "r - 1 < int (length rows)" "0 \<le> r - 1"
    using indexOf_bounds [of rows parent] r adj r0 by simp_all
  have row: "at_index rows (r - 1) = Some (rows ! nat (r - 1))"
    using rl by (simp add: at_index_nth)
  have k: "0 \<le> min c (int (length ?above) - 1)" "min c (int (length ?above) - 1) < int (length ?above)"
    using ne c0 by (auto simp: min_def)
  have cell: "at_index ?above (min c (int (length ?above) - 1)) = Some nxt"
    using k nxt by (simp add: at_index_nth)
  have "nat (min c (int (length ?above) - 1)) < length ?above" using k by linarith
  then have "nxt \<in> set ?above" using nxt by simp
  then have at: "nodeAt (document st) (fst nxt) = Some (snd nxt)"
    by (simp add: cellsOf_def query_nodeAt)
  have "table_ArrowUp st = moveToCell prevNode (Some nxt) st"
    using i prev [symmetric] par c [symmetric] tbl rows [symmetric] r [symmetric] adj row cell
    by (simp add: table_ArrowUp_def Let_def cellsOf_def)
  with moveToCell_reads [OF only at] show ?thesis by simp
qed

lemma table_ArrowUp_first_row:
  assumes pos: "cellPosition st prevNode rows r c"
    and first: "r = 0"
  shows "table_ArrowUp st
     = Returned (synth_speak ''There are no more rows above this one.'' st)"
  using assms
  by (auto simp: cellPosition_def table_ArrowUp_def Let_def split: option.splits)

lemmas table_eval =
  tableOf_def cellRef_def readerAt_def pageWith_def
  table_ArrowDown_def table_ArrowUp_def table_ArrowRight_def table_ArrowLeft_def
  moveToCell_def readCell_def parentElement_def querySelectorAll_th_td_def
  getElementsByTagName_def descendantsOf_def findTableElt.simps at_index_def

text \<open>
  In the ragged table the sequence down, right, right, up from the cell (0, 0) reads the
  cells \<open>b\<close>, \<open>c\<close>, \<open>d\<close> and \<open>a\<close> and ends with the mark on the cell (0, 0).
\<close>

lemma ragged_table_round_trip:
  "(case runHandlers [table_ArrowDown, table_ArrowRight, table_ArrowRight, table_ArrowUp]
          inRaggedTable of
      Returned st' \<Rightarrow>
        map fst (filter (isCurrent (classLists st')) (getAllElements (document st')))
          = [cellRef 0 0]
        \<and> voiceSynth (synth st')
          = [EngineCancel,
             EngineCancel, EngineSpeak (Utterance ''Table cell: b'' (Fin 1) () ()),
             EngineCancel, EngineSpeak (Utterance ''Table cell: c'' (Fin 1) () ()),
             EngineCancel, EngineSpeak (Utterance ''Table cell: d'' (Fin 1) () ()),
             EngineCancel, EngineSpeak (Utterance ''Table cell: a'' (Fin 1) () ())]
    | Threw e st' \<Rightarrow> False)"
  by (simp add: inRaggedTable_def table_eval reader_eval)

text \<open>
  Claim C4 says that in every table, ragged tables included, moving down into an
  adjacent row marks and reads the cell at the smaller of the column index and the
  row's last index (\<open>table_ArrowDown_moves\<close> and \<open>table_ArrowUp_moves\<close> show it for an
  adjacent row that has a cell). The code misses the adjacent row without cells: the
  list \<open>belowCells\<close> is empty, \<open>nextNode\<close> is \<open>undefined\<close>, and the handler throws
  at \<open>nextNode.focus()\<close> after it has taken the mark off the current cell. The theorem
  evaluates the handler there: it throws, no element is marked any more and nothing is
  narrated.
\<close>

theorem C4_empty_row_throws:
  "(case table_ArrowDown aboveEmptyRow of
      Returned st' \<Rightarrow> False
    | Threw e st' \<Rightarrow>
        e = TypeError
        \<and> filter (isCurrent (classLists st')) (getAllElements (document st')) = []
        \<and> synth st' = synth aboveEmptyRow
        \<and> modeStack st' = [NORMAL, TABLE])"
  by (simp add: aboveEmptyRow_def table_eval reader_eval)

end
